theory Spec2Isabelle
  imports Complex_Main
begin

text \<open>
  The geolocation wizard of \<^verbatim>\<open>src/components/GeolocationWizard.tsx\<close>, a React
  component of three steps over a map, and the application that shows it. The state held by the
  component's hooks is a record, each handler a function from state to state, and what the
  outside world answers (the outcome of a \<^verbatim>\<open>fetch\<close>) an argument of the handler.
\<close>

section \<open>JavaScript values\<close>

text \<open>
  A JavaScript \<^verbatim>\<open>number\<close> is NaN, an infinity or a finite double. A finite value is
  represented by the real it denotes; the sign of zero is left out, and a decimal literal of the
  code stands for the real it writes. The comparisons are those of the language: every
  comparison with NaN is false.
\<close>

datatype number = NaN | Finite real | PosInfinity | NegInfinity

fun isNaN :: "number \<Rightarrow> bool" where
  "isNaN NaN = True"
| "isNaN _ = False"

text \<open>\<^verbatim>\<open>a <= b\<close>; \<^verbatim>\<open>a >= b\<close> is \<open>num_le b a\<close>.\<close>

fun num_le :: "number \<Rightarrow> number \<Rightarrow> bool" where
  "num_le NaN _ = False"
| "num_le _ NaN = False"
| "num_le NegInfinity _ = True"
| "num_le _ PosInfinity = True"
| "num_le (Finite a) (Finite b) = (a \<le> b)"
| "num_le (Finite a) NegInfinity = False"
| "num_le PosInfinity _ = False"

text \<open>
  What an arithmetic operation or a conversion makes of its exact result \<open>x\<close>: the nearest
  double, the one with the even significand where two are equally near, and an infinity from
  \<open>2^1024\<close> on. With \<open>e\<close> the binary exponent of \<open>x\<close>, not below that of the subnormal
  numbers, the doubles around \<open>x\<close> are the multiples of \<open>2^(e - 52)\<close>.
\<close>

definition roundEven :: "real \<Rightarrow> int" where
  "roundEven r =
     (let f = \<lfloor>r\<rfloor>; d = r - of_int f
      in if d < 1 / 2 then f else if 1 / 2 < d then f + 1 else if even f then f else f + 1)"

definition toDouble :: "real \<Rightarrow> number" where
  "toDouble x =
     (if x = 0 then Finite 0
      else
        (let e = max \<lfloor>log 2 \<bar>x\<bar>\<rfloor> (- 1022);
             q = 2 powi (e - 52);
             y = of_int (roundEven (\<bar>x\<bar> / q)) * q
         in if 2 powi 1024 \<le> y then (if x < 0 then NegInfinity else PosInfinity)
            else Finite (if x < 0 then - y else y)))"

text \<open>\<^verbatim>\<open>a + b\<close> and \<^verbatim>\<open>a - b\<close> on numbers: the exact result, rounded.\<close>

fun num_neg :: "number \<Rightarrow> number" where
  "num_neg NaN = NaN"
| "num_neg (Finite a) = Finite (- a)"
| "num_neg PosInfinity = NegInfinity"
| "num_neg NegInfinity = PosInfinity"

fun num_add :: "number \<Rightarrow> number \<Rightarrow> number" where
  "num_add NaN _ = NaN"
| "num_add _ NaN = NaN"
| "num_add (Finite a) (Finite b) = toDouble (a + b)"
| "num_add PosInfinity NegInfinity = NaN"
| "num_add NegInfinity PosInfinity = NaN"
| "num_add PosInfinity _ = PosInfinity"
| "num_add NegInfinity _ = NegInfinity"
| "num_add (Finite a) b = b"

definition num_sub :: "number \<Rightarrow> number \<Rightarrow> number" where
  "num_sub a b = num_add a (num_neg b)"

text \<open>A coordinate pair \<^verbatim>\<open>[number, number]\<close>: latitude first.\<close>

type_synonym latlng = "number \<times> number"

text \<open>
  The values \<^verbatim>\<open>JSON.parse\<close> produces. An object keeps its members in the order of
  the text; of two members with one key the later one is the property's value.
\<close>

datatype json =
    JNull
  | JBool bool
  | JNumber number
  | JString string
  | JArray "json list"
  | JObject "(string \<times> json) list"

text \<open>Truthiness, as \<^verbatim>\<open>||\<close> tests it.\<close>

fun truthy :: "json \<Rightarrow> bool" where
  "truthy JNull = False"
| "truthy (JBool b) = b"
| "truthy (JNumber n) = (\<not> isNaN n \<and> n \<noteq> Finite 0)"
| "truthy (JString s) = (s \<noteq> [])"
| "truthy (JArray xs) = True"
| "truthy (JObject kvs) = True"

text \<open>What a \<^verbatim>\<open>try\<close> block can catch.\<close>

datatype error = NetworkError | SyntaxError | TypeError

text \<open>
  The property read \<^verbatim>\<open>data.display_name\<close>: a TypeError on \<^verbatim>\<open>null\<close>,
  \<open>None\<close> (that is \<^verbatim>\<open>undefined\<close>) where the value has no such property.
\<close>

fun display_name :: "json \<Rightarrow> error + json option" where
  "display_name JNull = Inl TypeError"
| "display_name (JObject kvs) = Inr (map_of (rev kvs) ''display_name'')"
| "display_name _ = Inr None"

section \<open>Built-ins taken as parameters\<close>

text \<open>
  \<^verbatim>\<open>Number.prototype.toFixed\<close> and \<^verbatim>\<open>parseFloat\<close> are not modelled (the
  one writes the shortest digits that give the double back, the other reads the longest prefix
  that is a number). The handlers take them as parameters: \<open>toFixed B x 6\<close> is
  \<^verbatim>\<open>x.toFixed(6)\<close>, which returns a string for every number \<open>x\<close>.
\<close>

record builtins =
  toFixed :: "number \<Rightarrow> nat \<Rightarrow> string"
  parseFloat :: "string \<Rightarrow> number"

section \<open>Reverse geocoding\<close>

text \<open>
  The outcome of \<^verbatim>\<open>fetch\<close> is an input of the model: the promise rejects, or it
  resolves to a response with its \<^verbatim>\<open>ok\<close> flag and a body, which
  \<^verbatim>\<open>response.json()\<close> parses or rejects.
\<close>

datatype body = NotJson | Json json

datatype fetch_result = Rejected | Response bool body

text \<open>\<^verbatim>\<open>`${lat.toFixed(6)}, ${lng.toFixed(6)}`\<close>\<close>

definition coordString :: "builtins \<Rightarrow> number \<Rightarrow> number \<Rightarrow> string" where
  "coordString B lat lng = toFixed B lat 6 @ '', '' @ toFixed B lng 6"

text \<open>
  The \<^verbatim>\<open>try\<close> block of \<^verbatim>\<open>reverseGeocode\<close>: \<open>Inl\<close> is a throw,
  \<open>Inr (Some v)\<close> the \<^verbatim>\<open>return\<close> inside the block, \<open>Inr None\<close> falling out of it.
\<close>

definition reverseGeocode_try ::
  "builtins \<Rightarrow> fetch_result \<Rightarrow> number \<Rightarrow> number \<Rightarrow> error + json option" where
  "reverseGeocode_try B fr lat lng =
     (case fr of
        Rejected \<Rightarrow> Inl NetworkError
      | Response ok b \<Rightarrow>
          if ok then
            (case b of
               NotJson \<Rightarrow> Inl SyntaxError
             | Json data \<Rightarrow>
                 (case display_name data of
                    Inl e \<Rightarrow> Inl e
                  | Inr None \<Rightarrow> Inr (Some (JString (coordString B lat lng)))
                  | Inr (Some v) \<Rightarrow>
                      Inr (Some (if truthy v then v else JString (coordString B lat lng)))))
          else Inr None)"

text \<open>
  \<^verbatim>\<open>reverseGeocode\<close>: the \<^verbatim>\<open>catch\<close> logs and falls through to the
  final \<^verbatim>\<open>return\<close>. \<open>Inl\<close> would be a rejection of the promise it returns.
\<close>

definition reverseGeocode ::
  "builtins \<Rightarrow> fetch_result \<Rightarrow> number \<Rightarrow> number \<Rightarrow> error + json" where
  "reverseGeocode B fr lat lng =
     (case reverseGeocode_try B fr lat lng of
        Inr (Some v) \<Rightarrow> Inr v
      | Inr None \<Rightarrow> Inr (JString (coordString B lat lng))
      | Inl e \<Rightarrow> Inr (JString (coordString B lat lng)))"

section \<open>The coordinate pattern\<close>

text \<open>
  Regular expressions, as far as \<^verbatim>\<open>/^-?\d+\.?\d*,-?\d+\.?\d*$/\<close> needs them.
  \<^verbatim>\<open>\d\<close> is an ASCII digit. The pattern is anchored at both ends, so
  \<^verbatim>\<open>test\<close> asks whether the whole string is in the language; it is decided by
  derivatives.
\<close>

datatype regex =
  RNone | REps | RChar char | RDigit | RAlt regex regex | RSeq regex regex | RStar regex

definition isDigit :: "char \<Rightarrow> bool" where
  "isDigit c = (c \<in> set ''0123456789'')"

abbreviation ROpt :: "regex \<Rightarrow> regex" where
  "ROpt r \<equiv> RAlt r REps"

abbreviation RPlus :: "regex \<Rightarrow> regex" where
  "RPlus r \<equiv> RSeq r (RStar r)"

primrec rseq :: "regex list \<Rightarrow> regex" where
  "rseq [] = REps"
| "rseq (r # rs) = RSeq r (rseq rs)"

primrec nullable :: "regex \<Rightarrow> bool" where
  "nullable RNone = False"
| "nullable REps = True"
| "nullable (RChar c) = False"
| "nullable RDigit = False"
| "nullable (RAlt r s) = (nullable r \<or> nullable s)"
| "nullable (RSeq r s) = (nullable r \<and> nullable s)"
| "nullable (RStar r) = True"

primrec deriv :: "char \<Rightarrow> regex \<Rightarrow> regex" where
  "deriv c RNone = RNone"
| "deriv c REps = RNone"
| "deriv c (RChar d) = (if c = d then REps else RNone)"
| "deriv c RDigit = (if isDigit c then REps else RNone)"
| "deriv c (RAlt r s) = RAlt (deriv c r) (deriv c s)"
| "deriv c (RSeq r s) =
     (if nullable r then RAlt (RSeq (deriv c r) s) (deriv c s) else RSeq (deriv c r) s)"
| "deriv c (RStar r) = RSeq (deriv c r) (RStar r)"

primrec test :: "regex \<Rightarrow> string \<Rightarrow> bool" where
  "test r [] = nullable r"
| "test r (c # cs) = test (deriv c r) cs"

text \<open>The language of a regular expression, against which \<open>test\<close> is proved right.\<close>

inductive_set star :: "string set \<Rightarrow> string set" for A :: "string set" where
  star_nil: "[] \<in> star A"
| star_app: "u \<in> A \<Longrightarrow> v \<in> star A \<Longrightarrow> u @ v \<in> star A"

primrec lang :: "regex \<Rightarrow> string set" where
  "lang RNone = {}"
| "lang REps = {[]}"
| "lang (RChar c) = {[c]}"
| "lang RDigit = {[c] | c. isDigit c}"
| "lang (RAlt r s) = lang r \<union> lang s"
| "lang (RSeq r s) = {u @ v | u v. u \<in> lang r \<and> v \<in> lang s}"
| "lang (RStar r) = star (lang r)"

primrec alphabet :: "regex \<Rightarrow> char set" where
  "alphabet RNone = {}"
| "alphabet REps = {}"
| "alphabet (RChar c) = {c}"
| "alphabet RDigit = {c. isDigit c}"
| "alphabet (RAlt r s) = alphabet r \<union> alphabet s"
| "alphabet (RSeq r s) = alphabet r \<union> alphabet s"
| "alphabet (RStar r) = alphabet r"

text \<open>\<^verbatim>\<open>-?\d+\.?\d*\<close>, one half of the pattern.\<close>

definition coordinate :: "regex list" where
  "coordinate = [ROpt (RChar CHR ''-''), RPlus RDigit, ROpt (RChar CHR ''.''), RStar RDigit]"

text \<open>\<^verbatim>\<open>/^-?\d+\.?\d*,-?\d+\.?\d*$/\<close>\<close>

definition coordPattern :: regex where
  "coordPattern = rseq (coordinate @ [RChar CHR '',''] @ coordinate)"

section \<open>Forward geocoding\<close>

text \<open>
  \<^verbatim>\<open>s.split(sep)\<close> for a one-character separator. The result is never empty, so
  the last branch of the \<open>case\<close> is not taken.
\<close>

fun split :: "char \<Rightarrow> string \<Rightarrow> string list" where
  "split sep [] = [[]]"
| "split sep (c # cs) =
     (if c = sep then [] # split sep cs
      else (case split sep cs of p # ps \<Rightarrow> (c # p) # ps | [] \<Rightarrow> [[c]]))"

text \<open>
  The decimal a string \<^verbatim>\<open>-?\d+\.?\d*\<close> writes, as an exact real; NaN for every other
  string.
\<close>

definition digitValue :: "char \<Rightarrow> nat" where
  "digitValue c = of_char c - 48"

definition digitsValue :: "string \<Rightarrow> nat" where
  "digitsValue ds = foldl (\<lambda>n c. 10 * n + digitValue c) 0 ds"

definition unsignedValue :: "string \<Rightarrow> real" where
  "unsignedValue s =
     (let i = takeWhile isDigit s; f = drop 1 (dropWhile isDigit s)
      in real (digitsValue i) + real (digitsValue f) / 10 ^ length f)"

definition decimalNumber :: "string \<Rightarrow> number" where
  "decimalNumber s =
     (if test (rseq coordinate) s
      then Finite (case s of
                     c # t \<Rightarrow> if c = CHR ''-'' then - unsignedValue t else unsignedValue s
                   | [] \<Rightarrow> 0)
      else NaN)"

text \<open>
  \<^verbatim>\<open>Number(s)\<close> on the strings \<^verbatim>\<open>-?\d+\.?\d*\<close>, the only ones
  \<open>geocodeLocation\<close> applies it to (lemma \<open>coordPattern_iff\<close>): the double nearest to the
  decimal the string writes, an infinity when that is too large. On every other string this
  model answers NaN; the built-in does so for most of them but not for all (the empty string is
  0, an exponent is accepted).
\<close>

definition Number :: "string \<Rightarrow> number" where
  "Number s = (case decimalNumber s of Finite x \<Rightarrow> toDouble x | n \<Rightarrow> n)"

text \<open>
  \<^verbatim>\<open>geocodeLocation\<close>. It awaits nothing and calls no service. The destructuring
  \<^verbatim>\<open>[lat, lng] = searchTerm.split(',').map(Number)\<close> takes the first two parts; a
  string the pattern admits has exactly two (lemma \<open>split_coordPattern\<close>), so the branch
  for fewer parts, where JavaScript would bind \<^verbatim>\<open>undefined\<close>, is never reached.
\<close>

definition geocodeLocation :: "string \<Rightarrow> latlng" where
  "geocodeLocation searchTerm =
     (if test coordPattern searchTerm then
        (case map Number (split CHR '','' searchTerm) of
           lat # lng # _ \<Rightarrow> (lat, lng)
         | _ \<Rightarrow> undefined)
      else (Finite 40.7128, Finite (- 74.0060)))"

section \<open>The wizard\<close>

text \<open>\<^verbatim>\<open>'drag' | 'center'\<close>\<close>

datatype mode = Drag | Center

record extent =
  center :: "latlng option"
  radius :: number

text \<open>
  The result handed to \<^verbatim>\<open>onComplete\<close>. The wizard's state is these five values
  and four more, each held by a \<^verbatim>\<open>useState\<close> hook. \<open>currentStep\<close> only ever
  holds small integers and is an \<open>int\<close>.
\<close>

record WizardResult =
  projectLocation :: "latlng option"
  projectExtent :: extent
  buildingLocation :: "latlng option"
  buildingRotation :: number
  interactionMode :: mode

record wizard = WizardResult +
  currentStep :: int
  mapCenter :: latlng
  mapZoom :: number
  searchAddress :: json

definition steps :: "string list" where
  "steps = [''Locate project'', ''Extent'', ''Place building (Optional)'']"

text \<open>The initial values of the hooks.\<close>

definition initial :: wizard where
  "initial =
     \<lparr> projectLocation = None,
       projectExtent = \<lparr> center = None, radius = Finite 1000 \<rparr>,
       buildingLocation = None,
       buildingRotation = Finite 0,
       interactionMode = Drag,
       currentStep = 0,
       mapCenter = (Finite 39.8283, Finite (- 98.5795)),
       mapZoom = Finite 4,
       searchAddress = JString [] \<rparr>"

text \<open>
  The handlers. An \<^verbatim>\<open>async\<close> handler is run to its end in one step, with the
  outcome of its \<^verbatim>\<open>fetch\<close> as an argument: the promise of
  \<open>geocodeLocation\<close> is resolved when it is awaited, and what follows the
  \<^verbatim>\<open>await\<close> of \<open>reverseGeocode\<close> only sets \<open>searchAddress\<close>.
\<close>

definition handleSearch :: "builtins \<Rightarrow> fetch_result \<Rightarrow> string \<Rightarrow> wizard \<Rightarrow> wizard" where
  "handleSearch B fr searchTerm st =
     (let location = geocodeLocation searchTerm;
          st1 = st\<lparr> mapCenter := location, mapZoom := Finite 15 \<rparr>
      in if currentStep st = 0 then
           (let st2 = st1\<lparr> projectLocation := Some location \<rparr>
            in if test coordPattern searchTerm then st2\<lparr> searchAddress := JString searchTerm \<rparr>
               else (case reverseGeocode B fr (fst location) (snd location) of
                       Inr address \<Rightarrow> st2\<lparr> searchAddress := address \<rparr>
                     | Inl e \<Rightarrow> st2\<lparr> searchAddress := JString searchTerm \<rparr>))
         else st1)"

definition handleMapClick :: "builtins \<Rightarrow> fetch_result \<Rightarrow> latlng \<Rightarrow> wizard \<Rightarrow> wizard" where
  "handleMapClick B fr latlng st =
     (if currentStep st = 0 then
        (let st1 = st\<lparr> projectLocation := Some latlng \<rparr>;
             st2 = (if interactionMode st = Center then st1\<lparr> mapCenter := latlng \<rparr> else st1)
         in case reverseGeocode B fr (fst latlng) (snd latlng) of
              Inr address \<Rightarrow> st2\<lparr> searchAddress := address \<rparr>
            | Inl e \<Rightarrow> st2\<lparr> searchAddress := JString (coordString B (fst latlng) (snd latlng)) \<rparr>)
      else if currentStep st = 1 then
        (let st1 = st\<lparr> projectExtent := \<lparr> center = Some latlng, radius = Finite 1000 \<rparr> \<rparr>
         in if interactionMode st = Center then st1\<lparr> mapCenter := latlng \<rparr> else st1)
      else if currentStep st = 2 then
        (let st1 = st\<lparr> buildingLocation := Some latlng \<rparr>
         in if interactionMode st = Center then st1\<lparr> mapCenter := latlng \<rparr> else st1)
      else st)"

text \<open>\<^verbatim>\<open>'project' | 'extent' | 'building'\<close>\<close>

datatype marker = Project | Extent | Building

definition handleMarkerDrag ::
  "builtins \<Rightarrow> fetch_result \<Rightarrow> latlng \<Rightarrow> marker \<Rightarrow> wizard \<Rightarrow> wizard" where
  "handleMarkerDrag B fr latlng type st =
     (case type of
        Project \<Rightarrow>
          (let st1 = st\<lparr> projectLocation := Some latlng \<rparr>
           in if currentStep st = 0 then
                (case reverseGeocode B fr (fst latlng) (snd latlng) of
                   Inr address \<Rightarrow> st1\<lparr> searchAddress := address \<rparr>
                 | Inl e \<Rightarrow>
                     st1\<lparr> searchAddress := JString (coordString B (fst latlng) (snd latlng)) \<rparr>)
              else st1)
      | Extent \<Rightarrow> st\<lparr> projectExtent := (projectExtent st)\<lparr> center := Some latlng \<rparr> \<rparr>
      | Building \<Rightarrow> st\<lparr> buildingLocation := Some latlng \<rparr>)"

definition handleCoordinateChange ::
  "builtins \<Rightarrow> fetch_result \<Rightarrow> number \<Rightarrow> number \<Rightarrow> wizard \<Rightarrow> wizard" where
  "handleCoordinateChange B fr lat lng st =
     (let st1 = st\<lparr> projectLocation := Some (lat, lng), mapCenter := (lat, lng) \<rparr>
      in case reverseGeocode B fr lat lng of
           Inr address \<Rightarrow> st1\<lparr> searchAddress := address \<rparr>
         | Inl e \<Rightarrow> st1\<lparr> searchAddress := JString (coordString B lat lng) \<rparr>)"

definition canProceed :: "wizard \<Rightarrow> bool" where
  "canProceed st =
     (if currentStep st = 0 then projectLocation st \<noteq> None
      else if currentStep st = 1 then center (projectExtent st) \<noteq> None
      else True)"

text \<open>
  \<^verbatim>\<open>handleNext\<close>. \<open>onComplete\<close> says whether the component was given that
  callback; the second component of the result is the value the callback is called with, if it
  is called.
\<close>

definition handleNext :: "bool \<Rightarrow> wizard \<Rightarrow> wizard \<times> WizardResult option" where
  "handleNext onComplete st =
     (if currentStep st < int (length steps) - 1 then
        (let st1 = st\<lparr> currentStep := currentStep st + 1 \<rparr>
         in case (currentStep st = 0, projectLocation st) of
              (True, Some loc) \<Rightarrow>
                (let st2 = st1\<lparr> mapCenter := loc, mapZoom := Finite 14 \<rparr>
                 in if currentStep st + 1 = 1
                    then (st2\<lparr> projectExtent := \<lparr> center = Some loc, radius = Finite 1000 \<rparr> \<rparr>,
                          None)
                    else (st2, None))
            | _ \<Rightarrow> (st1, None))
      else
        (let result =
               \<lparr> projectLocation = projectLocation st,
                 projectExtent = projectExtent st,
                 buildingLocation = buildingLocation st,
                 buildingRotation = buildingRotation st,
                 interactionMode = interactionMode st \<rparr>
         in if onComplete then (st, Some result) else (st, None)))"

definition handlePrevious :: "wizard \<Rightarrow> wizard" where
  "handlePrevious st =
     (if currentStep st > 0 then st\<lparr> currentStep := currentStep st - 1 \<rparr> else st)"

section \<open>The coordinate tooltip\<close>

text \<open>
  The text of the two input fields is local to the tooltip. The handlers get the component's
  properties \<^verbatim>\<open>position\<close> and \<^verbatim>\<open>onPositionChange\<close>; the latter is
  a change of the parent's state \<open>'s\<close>. The tooltip's place on the screen is not modelled.
\<close>

record tooltip =
  localLat :: string
  localLng :: string

definition handleLatChange ::
  "builtins \<Rightarrow> latlng \<Rightarrow> (number \<Rightarrow> number \<Rightarrow> 's \<Rightarrow> 's) \<Rightarrow> string \<Rightarrow> tooltip \<times> 's \<Rightarrow> tooltip \<times> 's" where
  "handleLatChange B position onPositionChange value ts =
     (let t = (fst ts)\<lparr> localLat := value \<rparr>;
          numValue = parseFloat B value
      in if \<not> isNaN numValue \<and> num_le (Finite (- 90)) numValue \<and> num_le numValue (Finite 90)
         then (t, onPositionChange numValue (snd position) (snd ts))
         else (t, snd ts))"

definition handleLngChange ::
  "builtins \<Rightarrow> latlng \<Rightarrow> (number \<Rightarrow> number \<Rightarrow> 's \<Rightarrow> 's) \<Rightarrow> string \<Rightarrow> tooltip \<times> 's \<Rightarrow> tooltip \<times> 's" where
  "handleLngChange B position onPositionChange value ts =
     (let t = (fst ts)\<lparr> localLng := value \<rparr>;
          numValue = parseFloat B value
      in if \<not> isNaN numValue \<and> num_le (Finite (- 180)) numValue \<and> num_le numValue (Finite 180)
         then (t, onPositionChange (fst position) numValue (snd ts))
         else (t, snd ts))"

text \<open>The tooltip as first rendered for a position.\<close>

definition CoordinateTooltip :: "builtins \<Rightarrow> latlng \<Rightarrow> tooltip" where
  "CoordinateTooltip B position =
     \<lparr> localLat = toFixed B (fst position) 6, localLng = toFixed B (snd position) 6 \<rparr>"

section \<open>The rotation control\<close>

text \<open>
  The two buttons of \<^verbatim>\<open>BuildingRotationControl\<close>, with its properties
  \<^verbatim>\<open>rotation\<close> and \<^verbatim>\<open>onRotationChange\<close>.
\<close>

definition rotateLeft :: "number \<Rightarrow> (number \<Rightarrow> 's \<Rightarrow> 's) \<Rightarrow> 's \<Rightarrow> 's" where
  "rotateLeft rotation onRotationChange = onRotationChange (num_sub rotation (Finite 15))"

definition rotateRight :: "number \<Rightarrow> (number \<Rightarrow> 's \<Rightarrow> 's) \<Rightarrow> 's \<Rightarrow> 's" where
  "rotateRight rotation onRotationChange = onRotationChange (num_add rotation (Finite 15))"

definition setBuildingRotation :: "number \<Rightarrow> wizard \<Rightarrow> wizard" where
  "setBuildingRotation r st = st\<lparr> buildingRotation := r \<rparr>"

section \<open>What the rendered page lets the user do\<close>

text \<open>
  One user action on the page rendered for a state. A control that is not rendered or is
  disabled does nothing: the search box and the tooltip exist at step 0 only, a marker can be
  dragged in drag mode once it is shown, the rotation control shows at step 2 once a building
  is placed, Previous is disabled at step 0 and Next while \<open>canProceed\<close> is false. The
  search box submits its trimmed text when that is not empty.
\<close>

datatype event =
    MapClick latlng fetch_result
  | Search string fetch_result
  | MarkerDrag marker latlng fetch_result
  | LatEdit string fetch_result
  | LngEdit string fetch_result
  | ModeChange mode
  | RotateLeft
  | RotateRight
  | Next
  | Previous

definition markerShown :: "marker \<Rightarrow> wizard \<Rightarrow> bool" where
  "markerShown m st =
     (interactionMode st = Drag \<and>
      (case m of
         Project \<Rightarrow> projectLocation st \<noteq> None
       | Extent \<Rightarrow> currentStep st \<ge> 1 \<and> center (projectExtent st) \<noteq> None
       | Building \<Rightarrow> currentStep st \<ge> 2 \<and> buildingLocation st \<noteq> None))"

definition rotationVisible :: "wizard \<Rightarrow> bool" where
  "rotationVisible st = (currentStep st = 2 \<and> buildingLocation st \<noteq> None)"

definition dispatch :: "builtins \<Rightarrow> bool \<Rightarrow> event \<Rightarrow> wizard \<Rightarrow> wizard" where
  "dispatch B onComplete e st =
     (case e of
        MapClick latlng fr \<Rightarrow> handleMapClick B fr latlng st
      | Search term fr \<Rightarrow>
          if currentStep st = 0 \<and> term \<noteq> [] then handleSearch B fr term st else st
      | MarkerDrag m latlng fr \<Rightarrow>
          if markerShown m st then handleMarkerDrag B fr latlng m st else st
      | LatEdit value fr \<Rightarrow>
          (case projectLocation st of
             Some position \<Rightarrow>
               if currentStep st = 0
               then snd (handleLatChange B position (handleCoordinateChange B fr) value
                           (CoordinateTooltip B position, st))
               else st
           | None \<Rightarrow> st)
      | LngEdit value fr \<Rightarrow>
          (case projectLocation st of
             Some position \<Rightarrow>
               if currentStep st = 0
               then snd (handleLngChange B position (handleCoordinateChange B fr) value
                           (CoordinateTooltip B position, st))
               else st
           | None \<Rightarrow> st)
      | ModeChange m \<Rightarrow> st\<lparr> interactionMode := m \<rparr>
      | RotateLeft \<Rightarrow>
          if rotationVisible st then rotateLeft (buildingRotation st) setBuildingRotation st else st
      | RotateRight \<Rightarrow>
          if rotationVisible st then rotateRight (buildingRotation st) setBuildingRotation st else st
      | Next \<Rightarrow> if canProceed st then fst (handleNext onComplete st) else st
      | Previous \<Rightarrow> if currentStep st = 0 then st else handlePrevious st)"

text \<open>The states the wizard can be in: the initial one and what user actions make of it.\<close>

inductive_set reachable :: "builtins \<Rightarrow> bool \<Rightarrow> wizard set"
  for B :: builtins and onComplete :: bool where
  reach_initial: "initial \<in> reachable B onComplete"
| reach_dispatch: "st \<in> reachable B onComplete \<Longrightarrow> dispatch B onComplete e st \<in> reachable B onComplete"

text \<open>A run of the page: the events of a list, one after the other.\<close>

primrec run :: "builtins \<Rightarrow> bool \<Rightarrow> event list \<Rightarrow> wizard \<Rightarrow> wizard" where
  "run B onComplete [] st = st"
| "run B onComplete (e # es) st = run B onComplete es (dispatch B onComplete e st)"

section \<open>The application\<close>

text \<open>
  \<^verbatim>\<open>App\<close> holds \<^verbatim>\<open>wizardResult\<close>, null at first, and shows the wizard, with
  \<^verbatim>\<open>handleWizardComplete\<close> as its \<^verbatim>\<open>onComplete\<close>, as long as that is null.
  \<open>App_Next\<close> is the press of the wizard's Next (or Finish) button there: the wizard's new
  state and the new \<^verbatim>\<open>wizardResult\<close>.
\<close>

definition handleWizardComplete :: "WizardResult \<Rightarrow> WizardResult option" where
  "handleWizardComplete result = Some result"

definition App_Next :: "wizard \<Rightarrow> wizard \<times> WizardResult option" where
  "App_Next st =
     (if canProceed st then
        (case handleNext True st of
           (st', Some result) \<Rightarrow> (st', handleWizardComplete result)
         | (st', None) \<Rightarrow> (st', None))
      else (st, None))"

section \<open>A decimal instance of the built-ins\<close>

text \<open>
  To run the handlers on concrete inputs the two built-ins need values. \<open>toFixedDecimal\<close>
  writes a number with \<open>f\<close> digits after the point, rounding the decimal half away from zero;
  as \<^verbatim>\<open>parseFloat\<close> the instance takes \<open>decimalNumber\<close>, which reads the
  decimals \<^verbatim>\<open>-?\d+\.?\d*\<close> exactly and is NaN elsewhere. On the sample inputs used below they give what
  JavaScript gives; they are not a model of the built-ins on every input (a double that is not
  the decimal it was written as can round the other way, and from \<open>10^21\<close> on the built-in
  switches to exponent notation).
\<close>

definition digitChar :: "nat \<Rightarrow> char" where
  "digitChar d = ''0123456789'' ! (d mod 10)"

fun showNat :: "nat \<Rightarrow> string" where
  "showNat n = (if n < 10 then [digitChar n] else showNat (n div 10) @ [digitChar (n mod 10)])"

definition toFixedDecimal :: "number \<Rightarrow> nat \<Rightarrow> string" where
  "toFixedDecimal x f =
     (case x of
        NaN \<Rightarrow> ''NaN''
      | PosInfinity \<Rightarrow> ''Infinity''
      | NegInfinity \<Rightarrow> ''-Infinity''
      | Finite r \<Rightarrow>
          (let n = nat \<lfloor>\<bar>r\<bar> * 10 ^ f + 1 / 2\<rfloor>;
               ds = showNat n;
               ds = replicate (f + 1 - length ds) CHR ''0'' @ ds;
               k = length ds - f
           in (if r < 0 then ''-'' else []) @ take k ds @
              (if f = 0 then [] else CHR ''.'' # drop k ds)))"

definition decimalBuiltins :: builtins where
  "decimalBuiltins = \<lparr> toFixed = toFixedDecimal, parseFloat = decimalNumber \<rparr>"

text \<open>A sample point: 40.7128 north, 74.006 west.\<close>

definition sampleLat :: real where
  "sampleLat = 40.7128"

definition sampleLng :: real where
  "sampleLng = - 74.006"

definition samplePoint :: latlng where
  "samplePoint = (Finite sampleLat, Finite sampleLng)"

text \<open>
  Sample runs from the initial state: the project placed, then Next pressed once, then twice,
  then a building placed.
\<close>

definition placedProject :: wizard where
  "placedProject = run decimalBuiltins True [MapClick samplePoint Rejected] initial"

definition atExtent :: wizard where
  "atExtent = run decimalBuiltins True [MapClick samplePoint Rejected, Next] initial"

definition atBuilding :: wizard where
  "atBuilding = run decimalBuiltins True [MapClick samplePoint Rejected, Next, Next] initial"

definition withBuilding :: wizard where
  "withBuilding =
     run decimalBuiltins True
       [MapClick samplePoint Rejected, Next, Next, MapClick samplePoint Rejected] initial"

section \<open>Rounding to a double\<close>

lemma roundEven_of_int [simp]: "roundEven (of_int j) = j"
  by (simp add: roundEven_def)

lemma roundEven_bounds: "\<lfloor>r\<rfloor> \<le> roundEven r \<and> roundEven r \<le> \<lfloor>r\<rfloor> + 1"
  by (simp add: roundEven_def Let_def)

lemma roundEven_below_half:
  "of_int j \<le> r \<Longrightarrow> r < of_int j + 1 / 2 \<Longrightarrow> roundEven r = j"
proof -
  assume a: "of_int j \<le> r" and b: "r < of_int j + 1 / 2"
  then have "\<lfloor>r\<rfloor> = j" by (intro floor_unique) auto
  with b show ?thesis by (simp add: roundEven_def Let_def)
qed

lemma roundEven_le: "r \<le> of_int N \<Longrightarrow> roundEven r \<le> N"
proof -
  assume a: "r \<le> of_int N"
  show ?thesis
  proof (cases "r = of_int N")
    case True
    then show ?thesis by simp
  next
    case False
    with a have "r < of_int N" by simp
    then have "\<lfloor>r\<rfloor> < N" by (simp add: floor_less_iff)
    with roundEven_bounds [of r] show ?thesis by linarith
  qed
qed

lemma roundEven_ge: "of_int N \<le> r \<Longrightarrow> N \<le> roundEven r"
proof -
  assume "of_int N \<le> r"
  then have "N \<le> \<lfloor>r\<rfloor>" by (simp add: le_floor_iff)
  with roundEven_bounds [of r] show ?thesis by linarith
qed

lemma exponent_bounds:
  assumes "x \<noteq> 0"
  shows "2 powi \<lfloor>log 2 \<bar>x\<bar>\<rfloor> \<le> \<bar>x\<bar>" and "\<bar>x\<bar> < 2 powi (\<lfloor>log 2 \<bar>x\<bar>\<rfloor> + 1)"
proof -
  have pos: "0 < \<bar>x\<bar>" using assms by simp
  have "(2::real) powr real_of_int \<lfloor>log 2 \<bar>x\<bar>\<rfloor> \<le> \<bar>x\<bar> \<and>
        \<bar>x\<bar> < 2 powr (real_of_int \<lfloor>log 2 \<bar>x\<bar>\<rfloor> + 1)"
    using floor_log_eq_powr_iff [of "\<bar>x\<bar>" 2 "\<lfloor>log 2 \<bar>x\<bar>\<rfloor>"] pos by simp
  then show "2 powi \<lfloor>log 2 \<bar>x\<bar>\<rfloor> \<le> \<bar>x\<bar>" and "\<bar>x\<bar> < 2 powi (\<lfloor>log 2 \<bar>x\<bar>\<rfloor> + 1)"
    using powr_real_of_int' [of "2::real" "\<lfloor>log 2 \<bar>x\<bar>\<rfloor>"]
          powr_real_of_int' [of "2::real" "\<lfloor>log 2 \<bar>x\<bar>\<rfloor> + 1"]
    by simp_all
qed

lemma exponent_unique:
  assumes "2 powi k \<le> \<bar>x\<bar>" and "\<bar>x\<bar> < 2 powi (k + 1)"
  shows "\<lfloor>log 2 \<bar>x\<bar>\<rfloor> = k"
proof -
  have pos: "0 < \<bar>x\<bar>"
    using assms(1) zero_less_power_int [of "2::real" k] by linarith
  have "(2::real) powr real_of_int k \<le> \<bar>x\<bar> \<and> \<bar>x\<bar> < 2 powr (real_of_int k + 1)"
    using assms powr_real_of_int' [of "2::real" k] powr_real_of_int' [of "2::real" "k + 1"]
    by simp
  then show ?thesis
    using floor_log_eq_powr_iff [of "\<bar>x\<bar>" 2 k] pos by simp
qed

lemma toDouble_minus: "toDouble (- x) = num_neg (toDouble x)"
  by (simp add: toDouble_def Let_def)



lemma toDouble_unfold:
  assumes "x \<noteq> 0"
    and "e = max \<lfloor>log 2 \<bar>x\<bar>\<rfloor> (- 1022)"
    and "y = of_int (roundEven (\<bar>x\<bar> / 2 powi (e - 52))) * 2 powi (e - 52)"
  shows "toDouble x =
           (if 2 powi 1024 \<le> y then (if x < 0 then NegInfinity else PosInfinity)
            else Finite (if x < 0 then - y else y))"
  using assms(1) unfolding assms(3) assms(2) toDouble_def Let_def by (simp only: if_False)

lemma two_powi_split: "(2::real) powi (e + 1) = 2 ^ 53 * 2 powi (e - 52)"
proof -
  have "e + 1 = 53 + (e - 52)" by simp
  then have "(2::real) powi (e + 1) = 2 powi (53 + (e - 52))" by (simp only:)
  also have "\<dots> = 2 powi 53 * 2 powi (e - 52)" by (rule power_int_add) simp
  finally show ?thesis by simp
qed

lemma two_powi_split': "(2::real) powi e = 2 ^ 52 * 2 powi (e - 52)"
proof -
  have "e = 52 + (e - 52)" by simp
  then have "(2::real) powi e = 2 powi (52 + (e - 52))" by (simp only:)
  also have "\<dots> = 2 powi 52 * 2 powi (e - 52)" by (rule power_int_add) simp
  finally show ?thesis by simp
qed

lemma toDouble_exact:
  assumes nz: "x \<noteq> 0"
    and e: "e = max \<lfloor>log 2 \<bar>x\<bar>\<rfloor> (- 1022)"
    and m: "\<bar>x\<bar> = of_int m * 2 powi (e - 52)"
    and small: "\<bar>x\<bar> < 2 powi 1024"
  shows "toDouble x = Finite x"
proof -
  define q where "q = (2::real) powi (e - 52)"
  define y where "y = of_int (roundEven (\<bar>x\<bar> / q)) * q"
  have q: "0 < q" by (simp add: q_def)
  have "\<bar>x\<bar> / q = of_int m"
    using m q by (simp add: q_def)
  then have y: "y = \<bar>x\<bar>"
    using m by (simp add: y_def q_def)
  have "toDouble x =
           (if 2 powi 1024 \<le> y then (if x < 0 then NegInfinity else PosInfinity)
            else Finite (if x < 0 then - y else y))"
    using nz e by (rule toDouble_unfold) (simp add: y_def q_def)
  then show ?thesis
    using small y by simp
qed

lemma power_int_nonpos: "j \<le> 0 \<Longrightarrow> (2::real) powi j = 1 / 2 ^ nat (- j)"
  by (auto simp: power_int_def field_simps)

lemma toDouble_int_exact:
  assumes "\<bar>k\<bar> \<le> 2 ^ 53"
  shows "toDouble (of_int k) = Finite (of_int k)"
proof (cases "k = 0")
  case True
  then show ?thesis by (simp add: toDouble_def)
next
  case False
  define x :: real where "x = of_int k"
  define e where "e = \<lfloor>log 2 \<bar>x\<bar>\<rfloor>"
  have nz: "x \<noteq> 0" using False by (simp add: x_def)
  have ax: "\<bar>x\<bar> = of_int \<bar>k\<bar>" by (simp add: x_def)
  have ge1: "1 \<le> \<bar>x\<bar>"
  proof -
    have "1 \<le> \<bar>k\<bar>" using False by simp
    then have "(of_int 1 :: real) \<le> of_int \<bar>k\<bar>" by (simp only: of_int_le_iff)
    then show ?thesis by (simp add: ax)
  qed
  have le53: "\<bar>x\<bar> \<le> 2 ^ 53"
  proof -
    have "(of_int \<bar>k\<bar> :: real) \<le> of_int (2 ^ 53)" using assms by (simp only: of_int_le_iff)
    then show ?thesis by (simp add: ax)
  qed
  have eb: "2 powi e \<le> \<bar>x\<bar>" "\<bar>x\<bar> < 2 powi (e + 1)"
    unfolding e_def by (rule exponent_bounds [OF nz])+
  have e_lo: "0 \<le> e"
  proof (rule ccontr)
    assume "\<not> 0 \<le> e"
    then have "e + 1 \<le> 0" by simp
    then have "(2::real) powi (e + 1) \<le> 2 powi 0"
      by (intro power_int_increasing) simp_all
    with eb(2) ge1 show False by simp
  qed
  have e_hi: "e \<le> 53"
  proof (rule ccontr)
    assume "\<not> e \<le> 53"
    then have "54 \<le> e" by simp
    then have "(2::real) powi 54 \<le> 2 powi e"
      by (intro power_int_increasing) simp_all
    with eb(1) le53 show False by simp
  qed
  have mx: "e = max \<lfloor>log 2 \<bar>x\<bar>\<rfloor> (- 1022)" using e_lo by (simp add: e_def)
  have small: "\<bar>x\<bar> < 2 powi 1024"
  proof -
    have "(2::real) ^ 53 < 2 ^ 1024" by (rule power_strict_increasing) simp_all
    with le53 show ?thesis by simp
  qed
  have "\<exists>m. \<bar>x\<bar> = of_int m * 2 powi (e - 52)"
  proof (cases "e \<le> 52")
    case True
    define n where "n = nat (52 - e)"
    have q: "(2::real) powi (e - 52) = 1 / 2 ^ n"
      using True power_int_nonpos [of "e - 52"] by (simp add: n_def)
    have "\<bar>x\<bar> = of_int (\<bar>k\<bar> * 2 ^ n) * 2 powi (e - 52)"
      unfolding q ax by simp
    then show ?thesis ..
  next
    case False
    with e_hi have e53: "e = 53" by simp
    with eb(1) le53 have x53: "\<bar>x\<bar> = 2 ^ 53" by simp
    have "\<bar>x\<bar> = of_int (2 ^ 52) * 2 powi (e - 52)"
      unfolding e53 x53 by simp
    then show ?thesis ..
  qed
  then obtain m where "\<bar>x\<bar> = of_int m * 2 powi (e - 52)" ..
  with nz mx have "toDouble x = Finite x" using small by (rule toDouble_exact)
  then show ?thesis by (simp only: x_def)
qed

lemma toDouble_sticks:
  assumes "2 ^ 57 \<le> x" and "x < 2 ^ 57 + 16"
  shows "toDouble x = Finite (2 ^ 57)"
proof -
  have pos: "0 < x" using assms(1) by (smt (verit) zero_less_power)
  then have nz: "x \<noteq> 0" and ax: "\<bar>x\<bar> = x" by simp_all
  have "(2::real) ^ 57 + 16 < 2 ^ 58" by simp
  with assms have "2 powi 57 \<le> \<bar>x\<bar>" and "\<bar>x\<bar> < 2 powi (57 + 1)"
    using ax by simp_all
  then have "\<lfloor>log 2 \<bar>x\<bar>\<rfloor> = 57" by (rule exponent_unique)
  then have e: "57 = max \<lfloor>log 2 \<bar>x\<bar>\<rfloor> (- 1022)" by simp
  have lo: "of_int (2 ^ 52) \<le> x / 32" using assms(1) by simp
  have hi: "x / 32 < of_int (2 ^ 52) + 1 / 2" using assms(2) by simp
  have r: "roundEven (x / 32) = 2 ^ 52" using lo hi by (rule roundEven_below_half)
  define y :: real where "y = 2 ^ 57"
  have "toDouble x =
           (if 2 powi 1024 \<le> y then (if x < 0 then NegInfinity else PosInfinity)
            else Finite (if x < 0 then - y else y))"
    using nz e by (rule toDouble_unfold) (simp add: ax r y_def)
  moreover have "\<not> 2 powi 1024 \<le> y"
  proof -
    have "(2::real) ^ 57 < 2 ^ 1024" by (rule power_strict_increasing) simp_all
    then show ?thesis by (simp add: y_def)
  qed
  ultimately show ?thesis using pos by (simp add: y_def)
qed

lemma toDouble_below:
  assumes "\<bar>x\<bar> < 2 ^ 57"
  shows "\<exists>y. toDouble x = Finite y \<and> \<bar>y\<bar> \<le> 2 ^ 57"
proof (cases "x = 0")
  case True
  then show ?thesis by (simp add: toDouble_def)
next
  case False
  define e0 where "e0 = \<lfloor>log 2 \<bar>x\<bar>\<rfloor>"
  define e where "e = max e0 (- 1022)"
  define q where "q = (2::real) powi (e - 52)"
  define m where "m = roundEven (\<bar>x\<bar> / q)"
  define y where "y = of_int m * q"
  have eb: "2 powi e0 \<le> \<bar>x\<bar>" "\<bar>x\<bar> < 2 powi (e0 + 1)"
    unfolding e0_def by (rule exponent_bounds [OF False])+
  have e0: "e0 \<le> 56"
  proof (rule ccontr)
    assume "\<not> e0 \<le> 56"
    then have "57 \<le> e0" by simp
    then have "(2::real) powi 57 \<le> 2 powi e0"
      by (intro power_int_increasing) simp_all
    with eb(1) assms show False by simp
  qed
  then have e: "e \<le> 56" by (simp add: e_def)
  have e0e: "e0 \<le> e" by (simp add: e_def)
  have q: "0 < q" by (simp add: q_def)
  have "(2::real) powi (e0 + 1) \<le> 2 powi (e + 1)"
    using e0e by (intro power_int_increasing) simp_all
  with eb(2) have "\<bar>x\<bar> < 2 powi (e + 1)" by simp
  then have "\<bar>x\<bar> < 2 ^ 53 * q" by (simp only: two_powi_split q_def)
  then have "\<bar>x\<bar> / q < 2 ^ 53" using q by (simp add: field_simps)
  then have "\<bar>x\<bar> / q \<le> of_int (2 ^ 53)" by simp
  then have m_hi: "m \<le> 2 ^ 53" unfolding m_def by (rule roundEven_le)
  have "of_int 0 \<le> \<bar>x\<bar> / q" using q by simp
  then have m_lo: "0 \<le> m" unfolding m_def by (rule roundEven_ge)
  have y_lo: "0 \<le> y" using m_lo q by (simp add: y_def)
  have "(of_int m :: real) \<le> of_int (2 ^ 53)" using m_hi by (simp only: of_int_le_iff)
  then have "(of_int m :: real) \<le> 2 ^ 53" by simp
  then have "y \<le> 2 ^ 53 * q" using q by (simp add: y_def mult_right_mono)
  then have "y \<le> 2 powi (e + 1)" by (simp only: two_powi_split q_def)
  moreover have "(2::real) powi (e + 1) \<le> 2 powi 57"
    using e by (intro power_int_increasing) simp_all
  ultimately have y_hi: "y \<le> 2 ^ 57" by simp
  have "(2::real) ^ 57 < 2 ^ 1024" by (rule power_strict_increasing) simp_all
  with y_hi have fin: "\<not> 2 powi 1024 \<le> y" by simp
  have "toDouble x =
           (if 2 powi 1024 \<le> y then (if x < 0 then NegInfinity else PosInfinity)
            else Finite (if x < 0 then - y else y))"
    using False by (rule toDouble_unfold [where e = e])
      (simp_all add: e_def e0_def y_def m_def q_def)
  with fin have "toDouble x = Finite (if x < 0 then - y else y)" by simp
  moreover have "\<bar>if x < 0 then - y else y\<bar> \<le> 2 ^ 57"
    using y_lo y_hi by simp
  ultimately show ?thesis by blast
qed

lemma toDouble_bounded:
  assumes "\<bar>x\<bar> < 2 ^ 57 + 16"
  shows "\<exists>y. toDouble x = Finite y \<and> \<bar>y\<bar> \<le> 2 ^ 57"
proof -
  consider "\<bar>x\<bar> < 2 ^ 57" | "2 ^ 57 \<le> x" | "2 ^ 57 \<le> - x" by linarith
  then show ?thesis
  proof cases
    case 1
    then show ?thesis by (rule toDouble_below)
  next
    case 2
    with assms have "toDouble x = Finite (2 ^ 57)" by (intro toDouble_sticks) simp_all
    then show ?thesis by simp
  next
    case 3
    with assms have "toDouble (- x) = Finite (2 ^ 57)" by (intro toDouble_sticks) simp_all
    then have "toDouble x = Finite (- (2 ^ 57))"
      using toDouble_minus [of "- x"] by simp
    then show ?thesis by simp
  qed
qed

lemma toDouble_overflow:
  assumes "2 ^ 1024 \<le> x"
  shows "toDouble x = PosInfinity"
proof -
  have pos: "0 < x" using assms by (smt (verit) zero_less_power)
  then have nz: "x \<noteq> 0" and ax: "\<bar>x\<bar> = x" by simp_all
  define e0 where "e0 = \<lfloor>log 2 \<bar>x\<bar>\<rfloor>"
  define q where "q = (2::real) powi (e0 - 52)"
  define m where "m = roundEven (\<bar>x\<bar> / q)"
  define y where "y = of_int m * q"
  have eb: "2 powi e0 \<le> \<bar>x\<bar>" "\<bar>x\<bar> < 2 powi (e0 + 1)"
    unfolding e0_def by (rule exponent_bounds [OF nz])+
  have e0: "1024 \<le> e0"
  proof (rule ccontr)
    assume "\<not> 1024 \<le> e0"
    then have "e0 + 1 \<le> 1024" by simp
    then have "(2::real) powi (e0 + 1) \<le> 2 powi 1024"
      by (intro power_int_increasing) simp_all
    with eb(2) assms ax show False by simp
  qed
  then have mx: "e0 = max \<lfloor>log 2 \<bar>x\<bar>\<rfloor> (- 1022)" by (simp add: e0_def)
  have q: "0 < q" by (simp add: q_def)
  have "2 ^ 52 * q \<le> \<bar>x\<bar>" using eb(1) by (simp only: two_powi_split' [of e0] q_def)
  then have "of_int (2 ^ 52) \<le> \<bar>x\<bar> / q"
    using q by (simp add: field_simps)
  then have "2 ^ 52 \<le> m" unfolding m_def by (rule roundEven_ge)
  then have "(of_int (2 ^ 52) :: real) \<le> of_int m" by (simp only: of_int_le_iff)
  then have "2 ^ 52 * q \<le> y" using q by (simp add: y_def mult_right_mono)
  then have "2 powi e0 \<le> y" by (simp only: two_powi_split' [of e0] q_def)
  moreover have "(2::real) powi 1024 \<le> 2 powi e0"
    using e0 by (intro power_int_increasing) simp_all
  ultimately have big: "2 powi 1024 \<le> y" by linarith
  have "toDouble x =
           (if 2 powi 1024 \<le> y then (if x < 0 then NegInfinity else PosInfinity)
            else Finite (if x < 0 then - y else y))"
    using nz mx by (rule toDouble_unfold) (simp add: y_def m_def q_def)
  with big pos show ?thesis by simp
qed

lemma num_add_int:
  assumes "\<bar>k + 15\<bar> \<le> 2 ^ 53"
  shows "num_add (Finite (of_int k)) (Finite 15) = Finite (of_int (k + 15))"
proof -
  have "(of_int k :: real) + 15 = of_int (k + 15)" by simp
  then have "num_add (Finite (of_int k)) (Finite 15) = toDouble (of_int (k + 15))"
    by (simp only: num_add.simps)
  with assms show ?thesis by (simp only: toDouble_int_exact)
qed

lemma num_sub_int:
  assumes "\<bar>k - 15\<bar> \<le> 2 ^ 53"
  shows "num_sub (Finite (of_int k)) (Finite 15) = Finite (of_int (k - 15))"
proof -
  have "(of_int k :: real) + - 15 = of_int (k - 15)" by simp
  then have "num_sub (Finite (of_int k)) (Finite 15) = toDouble (of_int (k - 15))"
    by (simp only: num_sub_def num_neg.simps num_add.simps)
  with assms show ?thesis by (simp only: toDouble_int_exact)
qed

lemma num_add_sticks: "num_add (Finite (2 ^ 57)) (Finite 15) = Finite (2 ^ 57)"
proof -
  have "toDouble (2 ^ 57 + 15) = Finite (2 ^ 57)"
    by (rule toDouble_sticks) simp_all
  then show ?thesis by (simp only: num_add.simps)
qed

lemma num_sub_sticks: "num_sub (Finite (- (2 ^ 57))) (Finite 15) = Finite (- (2 ^ 57))"
proof -
  have "toDouble (2 ^ 57 + 15) = Finite (2 ^ 57)"
    by (rule toDouble_sticks) simp_all
  then have "toDouble (- (2 ^ 57 + 15)) = Finite (- (2 ^ 57))"
    by (simp only: toDouble_minus num_neg.simps)
  moreover have "- (2 ^ 57) + - 15 = - ((2::real) ^ 57 + 15)" by simp
  ultimately have "toDouble (- (2 ^ 57) + - 15) = Finite (- (2 ^ 57))" by (simp only:)
  then show ?thesis by (simp only: num_sub_def num_neg.simps num_add.simps)
qed

lemma num_add_bounded:
  assumes "\<bar>y\<bar> \<le> 2 ^ 57"
  shows "\<exists>z. num_add (Finite y) (Finite 15) = Finite z \<and> \<bar>z\<bar> \<le> 2 ^ 57"
proof -
  have "\<bar>y + 15\<bar> < 2 ^ 57 + 16" using assms by linarith
  then have "\<exists>z. toDouble (y + 15) = Finite z \<and> \<bar>z\<bar> \<le> 2 ^ 57" by (rule toDouble_bounded)
  then show ?thesis by (simp only: num_add.simps)
qed

lemma num_sub_bounded:
  assumes "\<bar>y\<bar> \<le> 2 ^ 57"
  shows "\<exists>z. num_sub (Finite y) (Finite 15) = Finite z \<and> \<bar>z\<bar> \<le> 2 ^ 57"
proof -
  have "\<bar>y + - 15\<bar> < 2 ^ 57 + 16" using assms by linarith
  then have "\<exists>z. toDouble (y + - 15) = Finite z \<and> \<bar>z\<bar> \<le> 2 ^ 57" by (rule toDouble_bounded)
  then show ?thesis by (simp only: num_sub_def num_neg.simps num_add.simps)
qed

section \<open>Evaluating the decimal instance\<close>

declare showNat.simps [simp del]

lemma showNat_sample_lat: "showNat 40712800 = ''40712800''"
  by (simp add: showNat.simps digitChar_def)

lemma showNat_sample_lng: "showNat 74006000 = ''74006000''"
  by (simp add: showNat.simps digitChar_def)

lemma toFixed_sample_lat: "toFixed decimalBuiltins (Finite sampleLat) 6 = ''40.712800''"
proof -
  have n: "nat \<lfloor>\<bar>40.7128::real\<bar> * 10 ^ 6 + 1 / 2\<rfloor> = 40712800" by simp
  have "toFixedDecimal (Finite 40.7128) 6 = ''40.712800''"
    unfolding toFixedDecimal_def Let_def number.case n showNat_sample_lat by simp
  then show ?thesis by (simp add: decimalBuiltins_def sampleLat_def)
qed

lemma toFixed_sample_lng: "toFixed decimalBuiltins (Finite sampleLng) 6 = ''-74.006000''"
proof -
  have n: "nat \<lfloor>\<bar>- 74.006::real\<bar> * 10 ^ 6 + 1 / 2\<rfloor> = 74006000" by simp
  have "toFixedDecimal (Finite (- 74.006)) 6 = ''-74.006000''"
    unfolding toFixedDecimal_def Let_def number.case n showNat_sample_lng by simp
  then show ?thesis by (simp add: decimalBuiltins_def sampleLng_def)
qed

lemma coordString_sample:
  "coordString decimalBuiltins (Finite sampleLat) (Finite sampleLng) = ''40.712800, -74.006000''"
  by (simp add: coordString_def toFixed_sample_lat toFixed_sample_lng)

section \<open>Reverse geocoding never throws\<close>

lemma reverseGeocode_Inr: "\<exists>v. reverseGeocode B fr lat lng = Inr v"
  by (simp add: reverseGeocode_def split: sum.splits option.splits)

section \<open>Step 0: placing the project\<close>

text \<open>
  C1: at step 0 a click on the map sets the project location to the clicked coordinates and
  leaves the wizard at step 0, where \<open>canProceed\<close> (the Next button is enabled) holds exactly
  when the project location is not null; so after the click Next is available.
\<close>

theorem map_click_sets_project_location:
  "currentStep st = 0 \<Longrightarrow>
     projectLocation (handleMapClick B fr latlng st) = Some latlng \<and>
     currentStep (handleMapClick B fr latlng st) = 0 \<and>
     canProceed (handleMapClick B fr latlng st) \<and>
     (canProceed st \<longleftrightarrow> projectLocation st \<noteq> None)"
  by (simp add: handleMapClick_def canProceed_def Let_def split: sum.splits)

theorem map_click_sets_project_location_witness:
  "currentStep initial = 0 \<and>
   projectLocation (handleMapClick decimalBuiltins Rejected samplePoint initial) = Some samplePoint \<and>
   canProceed (handleMapClick decimalBuiltins Rejected samplePoint initial) \<and>
   \<not> canProceed initial"
proof -
  have h: "currentStep initial = 0" by (simp add: initial_def)
  have n: "projectLocation initial = None" by (simp add: initial_def)
  show ?thesis
    using map_click_sets_project_location [OF h, of decimalBuiltins Rejected samplePoint] h n
    by simp
qed

section \<open>Reverse geocoding\<close>

text \<open>
  C2: when the request fails, by a rejected \<^verbatim>\<open>fetch\<close> or by a response that is not
  OK, \<open>reverseGeocode\<close> returns the string
  \<^verbatim>\<open>`${lat.toFixed(6)}, ${lng.toFixed(6)}`\<close>; it returns (\<open>Inr\<close>), it does not throw.
\<close>

theorem reverseGeocode_failure_fallback:
  "fr = Rejected \<or> fr = Response False b \<Longrightarrow>
     reverseGeocode B fr lat lng = Inr (JString (toFixed B lat 6 @ '', '' @ toFixed B lng 6))"
  by (auto simp: reverseGeocode_def reverseGeocode_try_def coordString_def)

theorem reverseGeocode_failure_fallback_witness:
  "reverseGeocode decimalBuiltins Rejected (Finite sampleLat) (Finite sampleLng) =
     Inr (JString ''40.712800, -74.006000'') \<and>
   reverseGeocode decimalBuiltins (Response False NotJson) (Finite sampleLat) (Finite sampleLng) =
     Inr (JString ''40.712800, -74.006000'')"
  using reverseGeocode_failure_fallback
          [of Rejected NotJson decimalBuiltins "Finite sampleLat" "Finite sampleLng"]
        reverseGeocode_failure_fallback
          [of "Response False NotJson" NotJson decimalBuiltins "Finite sampleLat" "Finite sampleLng"]
  by (simp add: toFixed_sample_lat toFixed_sample_lng)

text \<open>
  C3, as stated: for every OK response \<open>reverseGeocode\<close> returns the response's
  \<^verbatim>\<open>display_name\<close>. It does not: the body a geocoder sends for a point it has no
  address for has no such member, and the coordinate string is returned; so it is when the
  member is the empty string.
\<close>

theorem reverseGeocode_ok_counterexample:
  "display_name (JObject [(''error'', JString ''Unable to geocode'')]) = Inr None \<and>
   reverseGeocode decimalBuiltins
       (Response True (Json (JObject [(''error'', JString ''Unable to geocode'')])))
       (Finite sampleLat) (Finite sampleLng) =
     Inr (JString ''40.712800, -74.006000'') \<and>
   display_name (JObject [(''display_name'', JString [])]) = Inr (Some (JString [])) \<and>
   reverseGeocode decimalBuiltins
       (Response True (Json (JObject [(''display_name'', JString [])])))
       (Finite sampleLat) (Finite sampleLng) =
     Inr (JString ''40.712800, -74.006000'') \<and>
   reverseGeocode decimalBuiltins (Response True NotJson) (Finite sampleLat) (Finite sampleLng) =
     Inr (JString ''40.712800, -74.006000'')"
  by (simp add: reverseGeocode_def reverseGeocode_try_def coordString_sample)

text \<open>
  C3, amended: for an OK response whose body is JSON with a truthy \<^verbatim>\<open>display_name\<close>
  (a string that is not empty, for one) \<open>reverseGeocode\<close> returns that value; for an OK
  response whose body is JSON with no \<^verbatim>\<open>display_name\<close> or a falsy one, or is not
  JSON, or is \<^verbatim>\<open>null\<close>, it returns the coordinate string.
\<close>

theorem reverseGeocode_ok_display_name:
  "(display_name data = Inr (Some v) \<and> truthy v \<longrightarrow>
      reverseGeocode B (Response True (Json data)) lat lng = Inr v) \<and>
   (display_name data = Inr (Some (JString s)) \<and> s \<noteq> [] \<longrightarrow>
      reverseGeocode B (Response True (Json data)) lat lng = Inr (JString s)) \<and>
   (display_name data = Inr (Some v) \<and> \<not> truthy v \<longrightarrow>
      reverseGeocode B (Response True (Json data)) lat lng =
        Inr (JString (toFixed B lat 6 @ '', '' @ toFixed B lng 6))) \<and>
   (display_name data = Inr None \<or> display_name data = Inl e \<longrightarrow>
      reverseGeocode B (Response True (Json data)) lat lng =
        Inr (JString (toFixed B lat 6 @ '', '' @ toFixed B lng 6))) \<and>
   reverseGeocode B (Response True NotJson) lat lng =
     Inr (JString (toFixed B lat 6 @ '', '' @ toFixed B lng 6))"
  by (auto simp: reverseGeocode_def reverseGeocode_try_def coordString_def)

theorem reverseGeocode_ok_display_name_witness:
  "display_name (JObject [(''display_name'', JString ''Broadway, New York'')]) =
     Inr (Some (JString ''Broadway, New York'')) \<and>
   reverseGeocode decimalBuiltins
       (Response True (Json (JObject [(''display_name'', JString ''Broadway, New York'')])))
       (Finite sampleLat) (Finite sampleLng) =
     Inr (JString ''Broadway, New York'') \<and>
   display_name (JObject [(''display_name'', JNumber (Finite 0))]) =
     Inr (Some (JNumber (Finite 0))) \<and>
   \<not> truthy (JNumber (Finite 0)) \<and>
   reverseGeocode decimalBuiltins
       (Response True (Json (JObject [(''display_name'', JNumber (Finite 0))])))
       (Finite sampleLat) (Finite sampleLng) =
     Inr (JString ''40.712800, -74.006000'') \<and>
   display_name JNull = Inl TypeError \<and>
   reverseGeocode decimalBuiltins (Response True (Json JNull)) (Finite sampleLat) (Finite sampleLng) =
     Inr (JString ''40.712800, -74.006000'') \<and>
   display_name (JArray []) = Inr None \<and>
   reverseGeocode decimalBuiltins (Response True (Json (JArray []))) (Finite sampleLat)
       (Finite sampleLng) =
     Inr (JString ''40.712800, -74.006000'')"
proof -
  let ?named = "JObject [(''display_name'', JString ''Broadway, New York'')]"
  let ?zero = "JObject [(''display_name'', JNumber (Finite 0))]"
  have a: "display_name ?named = Inr (Some (JString ''Broadway, New York''))" by simp
  have b: "display_name ?zero = Inr (Some (JNumber (Finite 0)))" by simp
  have c: "\<not> truthy (JNumber (Finite 0))" by simp
  have d: "display_name JNull = Inl TypeError" by simp
  have e: "display_name (JArray []) = Inr None" by simp
  show ?thesis
    using reverseGeocode_ok_display_name
            [of ?named "JString ''Broadway, New York''" decimalBuiltins
                "Finite sampleLat" "Finite sampleLng" "''Broadway, New York''" TypeError]
          reverseGeocode_ok_display_name
            [of ?zero "JNumber (Finite 0)" decimalBuiltins
                "Finite sampleLat" "Finite sampleLng" "[]" TypeError]
          reverseGeocode_ok_display_name
            [of JNull JNull decimalBuiltins "Finite sampleLat" "Finite sampleLng" "[]" TypeError]
          reverseGeocode_ok_display_name
            [of "JArray []" JNull decimalBuiltins "Finite sampleLat" "Finite sampleLng" "[]"
                TypeError]
          a b c d e
    by (simp add: toFixed_sample_lat toFixed_sample_lng)
qed

section \<open>The extent's radius\<close>

text \<open>
  C4: wherever a project extent is created its radius is 1000: by a click on the map at step
  1, by Next at step 0 with a project location set, and in the initial state.
\<close>

theorem extent_created_with_radius_1000:
  "(currentStep st = 1 \<longrightarrow>
      projectExtent (handleMapClick B fr latlng st) = \<lparr> center = Some latlng, radius = Finite 1000 \<rparr>) \<and>
   (currentStep st = 0 \<and> projectLocation st = Some loc \<longrightarrow>
      projectExtent (fst (handleNext onComplete st)) = \<lparr> center = Some loc, radius = Finite 1000 \<rparr> \<and>
      currentStep (fst (handleNext onComplete st)) = 1) \<and>
   projectExtent initial = \<lparr> center = None, radius = Finite 1000 \<rparr>"
  by (simp add: handleMapClick_def handleNext_def steps_def initial_def Let_def)

theorem extent_created_with_radius_1000_witness:
  "currentStep (initial\<lparr> currentStep := 1 \<rparr>) = 1 \<and>
   radius (projectExtent (handleMapClick decimalBuiltins Rejected samplePoint
                            (initial\<lparr> currentStep := 1 \<rparr>))) = Finite 1000 \<and>
   center (projectExtent (handleMapClick decimalBuiltins Rejected samplePoint
                            (initial\<lparr> currentStep := 1 \<rparr>))) = Some samplePoint \<and>
   currentStep (initial\<lparr> projectLocation := Some samplePoint \<rparr>) = 0 \<and>
   projectLocation (initial\<lparr> projectLocation := Some samplePoint \<rparr>) = Some samplePoint \<and>
   radius (projectExtent (fst (handleNext True (initial\<lparr> projectLocation := Some samplePoint \<rparr>)))) =
     Finite 1000 \<and>
   radius (projectExtent initial) = Finite 1000"
proof -
  have a: "currentStep (initial\<lparr> currentStep := 1 \<rparr>) = 1" by simp
  have b: "currentStep (initial\<lparr> projectLocation := Some samplePoint \<rparr>) = 0"
    by (simp add: initial_def)
  have c: "projectLocation (initial\<lparr> projectLocation := Some samplePoint \<rparr>) = Some samplePoint"
    by simp
  show ?thesis
    using extent_created_with_radius_1000
            [of "initial\<lparr> currentStep := 1 \<rparr>" decimalBuiltins Rejected samplePoint
                samplePoint True]
          extent_created_with_radius_1000
            [of "initial\<lparr> projectLocation := Some samplePoint \<rparr>" decimalBuiltins Rejected
                samplePoint samplePoint True]
          a b c
    by simp
qed

section \<open>Runs and reachable states\<close>

lemma run_reachable: "st \<in> reachable B oc \<Longrightarrow> run B oc es st \<in> reachable B oc"
  by (induction es arbitrary: st) (auto intro: reachable.reach_dispatch)

lemma currentStep_handleNext:
  "currentStep (fst (handleNext oc st)) =
     (if currentStep st < 2 then currentStep st + 1 else currentStep st)"
  by (simp add: handleNext_def steps_def Let_def split: option.splits bool.splits)

lemma currentStep_handlePrevious:
  "currentStep (handlePrevious st) =
     (if currentStep st > 0 then currentStep st - 1 else currentStep st)"
  by (simp add: handlePrevious_def)

lemma currentStep_handleMapClick: "currentStep (handleMapClick B fr latlng st) = currentStep st"
  by (simp add: handleMapClick_def Let_def split: sum.splits)

lemma currentStep_handleSearch: "currentStep (handleSearch B fr term st) = currentStep st"
  by (simp add: handleSearch_def Let_def split: sum.splits)

lemma currentStep_handleMarkerDrag: "currentStep (handleMarkerDrag B fr latlng m st) = currentStep st"
  by (simp add: handleMarkerDrag_def Let_def split: sum.splits marker.splits)

lemma currentStep_handleCoordinateChange:
  "currentStep (handleCoordinateChange B fr lat lng st) = currentStep st"
  by (simp add: handleCoordinateChange_def Let_def split: sum.splits)

lemma currentStep_dispatch_other:
  "e \<noteq> Next \<Longrightarrow> e \<noteq> Previous \<Longrightarrow> currentStep (dispatch B oc e st) = currentStep st"
  by (cases e)
     (simp_all add: dispatch_def currentStep_handleMapClick currentStep_handleSearch
        currentStep_handleMarkerDrag currentStep_handleCoordinateChange
        handleLatChange_def handleLngChange_def rotateLeft_def rotateRight_def
        setBuildingRotation_def Let_def split: option.splits)

lemma currentStep_dispatch_range:
  "currentStep st \<in> {0, 1, 2} \<Longrightarrow> currentStep (dispatch B oc e st) \<in> {0, 1, 2}"
proof (cases "e = Next \<or> e = Previous")
  case False
  assume "currentStep st \<in> {0, 1, 2}"
  with False show ?thesis by (simp add: currentStep_dispatch_other)
next
  case True
  assume "currentStep st \<in> {0, 1, 2}"
  with True show ?thesis
    by (auto simp: dispatch_def currentStep_handleNext currentStep_handlePrevious)
qed

lemma reachable_currentStep: "st \<in> reachable B oc \<Longrightarrow> currentStep st \<in> {0, 1, 2}"
proof (induction rule: reachable.induct)
  case reach_initial
  show ?case by (simp add: initial_def)
next
  case (reach_dispatch st e)
  from reach_dispatch.IH show ?case by (rule currentStep_dispatch_range)
qed

text \<open>No action changes the radius of the extent: it is 1000 in every reachable state.\<close>

lemma radius_dispatch:
  "radius (projectExtent st) = Finite 1000 \<Longrightarrow>
     radius (projectExtent (dispatch B oc e st)) = Finite 1000"
  by (cases e)
     (auto simp: dispatch_def handleMapClick_def handleSearch_def handleMarkerDrag_def
        handleCoordinateChange_def handleLatChange_def handleLngChange_def handleNext_def
        handlePrevious_def rotateLeft_def rotateRight_def setBuildingRotation_def Let_def
        split: sum.splits option.splits marker.splits bool.splits)

lemma reachable_radius: "st \<in> reachable B oc \<Longrightarrow> radius (projectExtent st) = Finite 1000"
proof (induction rule: reachable.induct)
  case reach_initial
  show ?case by (simp add: initial_def)
next
  case (reach_dispatch st e)
  from reach_dispatch.IH show ?case by (rule radius_dispatch)
qed

lemma dispatch_RotateRight:
  "rotationVisible st \<Longrightarrow>
     dispatch B oc RotateRight st = st\<lparr> buildingRotation := num_add (buildingRotation st) (Finite 15) \<rparr>"
  by (simp add: dispatch_def rotateRight_def setBuildingRotation_def)

lemma dispatch_RotateLeft:
  "rotationVisible st \<Longrightarrow>
     dispatch B oc RotateLeft st = st\<lparr> buildingRotation := num_sub (buildingRotation st) (Finite 15) \<rparr>"
  by (simp add: dispatch_def rotateLeft_def setBuildingRotation_def)

lemma buildingRotation_update: "buildingRotation (st\<lparr> buildingRotation := v \<rparr>) = v"
  by simp

lemma run_RotateRight:
  "rotationVisible st \<Longrightarrow> buildingRotation st = Finite (of_int k) \<Longrightarrow>
   \<bar>k\<bar> + 15 * int n \<le> 2 ^ 53 \<Longrightarrow>
     run B oc (replicate n RotateRight) st =
       st\<lparr> buildingRotation := Finite (of_int (k + 15 * int n)) \<rparr>"
proof (induction n arbitrary: st k)
  case 0
  then show ?case by simp
next
  case (Suc n)
  let ?st = "st\<lparr> buildingRotation := Finite (of_int (k + 15)) \<rparr>"
  have "\<bar>k + 15\<bar> \<le> 2 ^ 53" using Suc.prems(3) by simp
  then have d: "dispatch B oc RotateRight st = ?st"
    using Suc.prems(1,2) by (simp add: dispatch_RotateRight num_add_int del: of_int_add num_add.simps)
  have v: "rotationVisible ?st" using Suc.prems(1) by (simp add: rotationVisible_def)
  have r: "buildingRotation ?st = Finite (of_int (k + 15))" by simp
  have b: "\<bar>k + 15\<bar> + 15 * int n \<le> 2 ^ 53" using Suc.prems(3) by simp
  have "run B oc (replicate n RotateRight) ?st =
      ?st\<lparr> buildingRotation := Finite (of_int (k + 15 + 15 * int n)) \<rparr>"
    using Suc.IH [OF v r b] .
  with d show ?case by (simp add: algebra_simps)
qed

lemma run_RotateLeft:
  "rotationVisible st \<Longrightarrow> buildingRotation st = Finite (of_int k) \<Longrightarrow>
   \<bar>k\<bar> + 15 * int n \<le> 2 ^ 53 \<Longrightarrow>
     run B oc (replicate n RotateLeft) st =
       st\<lparr> buildingRotation := Finite (of_int (k - 15 * int n)) \<rparr>"
proof (induction n arbitrary: st k)
  case 0
  then show ?case by simp
next
  case (Suc n)
  let ?st = "st\<lparr> buildingRotation := Finite (of_int (k - 15)) \<rparr>"
  have "\<bar>k - 15\<bar> \<le> 2 ^ 53" using Suc.prems(3) by simp
  then have d: "dispatch B oc RotateLeft st = ?st"
    using Suc.prems(1,2) by (simp add: dispatch_RotateLeft num_sub_int del: of_int_diff num_add.simps)
  have v: "rotationVisible ?st" using Suc.prems(1) by (simp add: rotationVisible_def)
  have r: "buildingRotation ?st = Finite (of_int (k - 15))" by simp
  have b: "\<bar>k - 15\<bar> + 15 * int n \<le> 2 ^ 53" using Suc.prems(3) by simp
  have "run B oc (replicate n RotateLeft) ?st =
      ?st\<lparr> buildingRotation := Finite (of_int (k - 15 - 15 * int n)) \<rparr>"
    using Suc.IH [OF v r b] .
  with d show ?case by (simp add: algebra_simps)
qed

lemma run_RotateRight_stuck:
  "rotationVisible st \<Longrightarrow> buildingRotation st = Finite (2 ^ 57) \<Longrightarrow>
     run B oc (replicate n RotateRight) st = st"
proof (induction n)
  case 0
  then show ?case by simp
next
  case (Suc n)
  have "dispatch B oc RotateRight st =
      st\<lparr> buildingRotation := num_add (buildingRotation st) (Finite 15) \<rparr>"
    using Suc.prems(1) by (rule dispatch_RotateRight)
  also have "\<dots> = st\<lparr> buildingRotation := buildingRotation st \<rparr>"
    by (simp only: Suc.prems(2) num_add_sticks)
  finally have "dispatch B oc RotateRight st = st" by simp
  with Suc show ?case by simp
qed

lemma run_RotateLeft_stuck:
  "rotationVisible st \<Longrightarrow> buildingRotation st = Finite (- (2 ^ 57)) \<Longrightarrow>
     run B oc (replicate n RotateLeft) st = st"
proof (induction n)
  case 0
  then show ?case by simp
next
  case (Suc n)
  have "dispatch B oc RotateLeft st =
      st\<lparr> buildingRotation := num_sub (buildingRotation st) (Finite 15) \<rparr>"
    using Suc.prems(1) by (rule dispatch_RotateLeft)
  also have "\<dots> = st\<lparr> buildingRotation := buildingRotation st \<rparr>"
    by (simp only: Suc.prems(2) num_sub_sticks)
  finally have "dispatch B oc RotateLeft st = st" by simp
  with Suc show ?case by simp
qed

text \<open>Only the two rotation buttons change the rotation, and it never leaves [-2^57, 2^57].\<close>

lemma buildingRotation_dispatch_other:
  "e \<noteq> RotateLeft \<Longrightarrow> e \<noteq> RotateRight \<Longrightarrow>
     buildingRotation (dispatch B oc e st) = buildingRotation st"
  by (cases e)
     (auto simp: dispatch_def handleMapClick_def handleSearch_def handleMarkerDrag_def
        handleCoordinateChange_def handleLatChange_def handleLngChange_def handleNext_def
        handlePrevious_def Let_def
        split: sum.splits option.splits marker.splits bool.splits)

lemma rotation_dispatch_bounded:
  assumes "\<exists>y. buildingRotation st = Finite y \<and> \<bar>y\<bar> \<le> 2 ^ 57"
  shows "\<exists>y. buildingRotation (dispatch B oc e st) = Finite y \<and> \<bar>y\<bar> \<le> 2 ^ 57"
proof -
  from assms obtain y where y: "buildingRotation st = Finite y" "\<bar>y\<bar> \<le> 2 ^ 57" by blast
  consider "e = RotateRight" | "e = RotateLeft" | "e \<noteq> RotateLeft \<and> e \<noteq> RotateRight"
    by blast
  then show ?thesis
  proof cases
    case 1
    show ?thesis
    proof (cases "rotationVisible st")
      case True
      with 1 y(1) have "buildingRotation (dispatch B oc e st) = num_add (Finite y) (Finite 15)"
        by (simp add: dispatch_RotateRight)
      with num_add_bounded [OF y(2)] show ?thesis by simp
    next
      case False
      with 1 assms show ?thesis by (simp add: dispatch_def)
    qed
  next
    case 2
    show ?thesis
    proof (cases "rotationVisible st")
      case True
      with 2 y(1) have "buildingRotation (dispatch B oc e st) = num_sub (Finite y) (Finite 15)"
        by (simp add: dispatch_RotateLeft)
      with num_sub_bounded [OF y(2)] show ?thesis by simp
    next
      case False
      with 2 assms show ?thesis by (simp add: dispatch_def)
    qed
  next
    case 3
    with assms show ?thesis by (simp add: buildingRotation_dispatch_other)
  qed
qed

lemma reachable_rotation:
  "st \<in> reachable B oc \<Longrightarrow> \<exists>y. buildingRotation st = Finite y \<and> \<bar>y\<bar> \<le> 2 ^ 57"
proof (induction rule: reachable.induct)
  case reach_initial
  show ?case by (simp add: initial_def)
next
  case (reach_dispatch st e)
  from reach_dispatch.IH show ?case by (rule rotation_dispatch_bounded)
qed

lemma rotationVisible_update [simp]:
  "rotationVisible (st\<lparr> buildingRotation := r \<rparr>) = rotationVisible st"
  by (simp add: rotationVisible_def)

text \<open>The sample runs, evaluated.\<close>

lemmas run_eval_simps =
  dispatch_def handleMapClick_def handleNext_def canProceed_def steps_def reverseGeocode_def
  reverseGeocode_try_def samplePoint_def coordString_sample initial_def Let_def

lemma placedProject_eval:
  "placedProject =
     initial\<lparr> projectLocation := Some samplePoint,
       searchAddress := JString ''40.712800, -74.006000'' \<rparr>"
  by (simp add: placedProject_def run_eval_simps)

lemma atExtent_eval:
  "atExtent =
     initial\<lparr> projectLocation := Some samplePoint,
       projectExtent := \<lparr> center = Some samplePoint, radius = Finite 1000 \<rparr>,
       currentStep := 1, mapCenter := samplePoint, mapZoom := Finite 14,
       searchAddress := JString ''40.712800, -74.006000'' \<rparr>"
  by (simp add: atExtent_def run_eval_simps)

lemma atBuilding_eval:
  "atBuilding =
     initial\<lparr> projectLocation := Some samplePoint,
       projectExtent := \<lparr> center = Some samplePoint, radius = Finite 1000 \<rparr>,
       currentStep := 2, mapCenter := samplePoint, mapZoom := Finite 14,
       searchAddress := JString ''40.712800, -74.006000'' \<rparr>"
  by (simp add: atBuilding_def run_eval_simps)

lemma withBuilding_eval:
  "withBuilding =
     initial\<lparr> projectLocation := Some samplePoint,
       projectExtent := \<lparr> center = Some samplePoint, radius = Finite 1000 \<rparr>,
       buildingLocation := Some samplePoint,
       currentStep := 2, mapCenter := samplePoint, mapZoom := Finite 14,
       searchAddress := JString ''40.712800, -74.006000'' \<rparr>"
  by (simp add: withBuilding_def run_eval_simps)

lemma sample_runs_reachable:
  "atExtent \<in> reachable decimalBuiltins True"
  "atBuilding \<in> reachable decimalBuiltins True"
  "withBuilding \<in> reachable decimalBuiltins True"
  unfolding atExtent_def atBuilding_def withBuilding_def
  by (rule run_reachable, rule reachable.reach_initial)+

section \<open>The rotation stepper\<close>

text \<open>
  C5, as stated: for every rotation \<open>r\<close> the increment button sets the rotation to \<open>r + 15\<close>
  and the decrement button to \<open>r - 15\<close>, so that repeated presses drive the value arbitrarily
  far from 0. Not with doubles: at \<open>2^57\<close> the sum \<open>r + 15\<close> rounds back to \<open>r\<close>, a thousand
  presses of the button leave the rotation where it is, and no reachable state has a rotation
  beyond \<open>2^57\<close>.
\<close>

theorem rotation_stepper_counterexample:
  "num_add (Finite (2 ^ 57)) (Finite 15) = Finite (2 ^ 57) \<and>
   num_sub (Finite (- (2 ^ 57))) (Finite 15) = Finite (- (2 ^ 57)) \<and>
   rotationVisible (withBuilding\<lparr> buildingRotation := Finite (2 ^ 57) \<rparr>) \<and>
   run decimalBuiltins True (replicate 1000 RotateRight)
       (withBuilding\<lparr> buildingRotation := Finite (2 ^ 57) \<rparr>) =
     withBuilding\<lparr> buildingRotation := Finite (2 ^ 57) \<rparr> \<and>
   \<not> (\<exists>st y. st \<in> reachable decimalBuiltins True \<and> buildingRotation st = Finite y \<and>
          2 ^ 57 < \<bar>y\<bar>)"
proof -
  let ?st = "withBuilding\<lparr> buildingRotation := Finite (2 ^ 57) \<rparr>"
  have v: "rotationVisible ?st"
    by (simp add: withBuilding_eval rotationVisible_def)
  have r: "buildingRotation ?st = Finite (2 ^ 57)" by (rule buildingRotation_update)
  have stuck: "run decimalBuiltins True (replicate 1000 RotateRight) ?st = ?st"
    using v r by (rule run_RotateRight_stuck)
  have bound: "\<not> (\<exists>st y. st \<in> reachable decimalBuiltins True \<and> buildingRotation st = Finite y \<and>
          2 ^ 57 < \<bar>y\<bar>)"
  proof
    assume "\<exists>st y. st \<in> reachable decimalBuiltins True \<and> buildingRotation st = Finite y \<and>
          2 ^ 57 < \<bar>y\<bar>"
    then obtain st y where a: "st \<in> reachable decimalBuiltins True"
      "buildingRotation st = Finite y" "2 ^ 57 < \<bar>y\<bar>" by blast
    from reachable_rotation [OF a(1)] a(2) have "\<bar>y\<bar> \<le> 2 ^ 57" by simp
    with a(3) show False by simp
  qed
  from num_add_sticks num_sub_sticks v stuck bound show ?thesis by (intro conjI)
qed

text \<open>
  C5, amended: for every rotation \<open>r\<close> the increment button hands \<open>r + 15\<close> to
  \<^verbatim>\<open>onRotationChange\<close> and the decrement button \<open>r - 15\<close>, as JavaScript computes them
  (the nearest double), and the wizard stores that value as it is: nothing clamps or wraps it.
  For an integer \<open>k\<close> the result is exactly \<open>k + 15\<close> while that is at most \<open>2^53\<close> in
  magnitude (\<open>k - 15\<close> likewise), so \<open>n\<close> presses from \<open>k\<close> give \<open>k + 15 n\<close> (or
  \<open>k - 15 n\<close>) while \<open>|k| + 15 n\<close> is at most \<open>2^53\<close>. The value cannot be driven
  arbitrarily far: at \<open>2^57\<close> the increment, and at \<open>-2^57\<close> the decrement, leaves it as it
  is, and in every reachable state the rotation is a finite number between \<open>-2^57\<close> and
  \<open>2^57\<close>.
\<close>

theorem rotation_stepper_by_15:
  "rotateRight r f = f (num_add r (Finite 15)) \<and>
   rotateLeft r f = f (num_sub r (Finite 15)) \<and>
   (rotationVisible st \<longrightarrow>
      buildingRotation (dispatch B oc RotateRight st) = num_add (buildingRotation st) (Finite 15) \<and>
      buildingRotation (dispatch B oc RotateLeft st) = num_sub (buildingRotation st) (Finite 15)) \<and>
   (\<bar>k + 15\<bar> \<le> 2 ^ 53 \<longrightarrow> num_add (Finite (of_int k)) (Finite 15) = Finite (of_int (k + 15))) \<and>
   (\<bar>k - 15\<bar> \<le> 2 ^ 53 \<longrightarrow> num_sub (Finite (of_int k)) (Finite 15) = Finite (of_int (k - 15))) \<and>
   (rotationVisible st \<and> buildingRotation st = Finite (of_int k) \<and> \<bar>k\<bar> + 15 * int n \<le> 2 ^ 53 \<longrightarrow>
      buildingRotation (run B oc (replicate n RotateRight) st) = Finite (of_int (k + 15 * int n)) \<and>
      buildingRotation (run B oc (replicate n RotateLeft) st) = Finite (of_int (k - 15 * int n))) \<and>
   num_add (Finite (2 ^ 57)) (Finite 15) = Finite (2 ^ 57) \<and>
   num_sub (Finite (- (2 ^ 57))) (Finite 15) = Finite (- (2 ^ 57)) \<and>
   (st \<in> reachable B oc \<longrightarrow> (\<exists>y. buildingRotation st = Finite y \<and> \<bar>y\<bar> \<le> 2 ^ 57))"
proof -
  have a: "rotateRight r f = f (num_add r (Finite 15))" by (simp only: rotateRight_def)
  have b: "rotateLeft r f = f (num_sub r (Finite 15))" by (simp only: rotateLeft_def)
  have c: "rotationVisible st \<longrightarrow>
      buildingRotation (dispatch B oc RotateRight st) = num_add (buildingRotation st) (Finite 15) \<and>
      buildingRotation (dispatch B oc RotateLeft st) = num_sub (buildingRotation st) (Finite 15)"
    by (simp add: dispatch_RotateRight dispatch_RotateLeft del: num_add.simps)
  have d: "\<bar>k + 15\<bar> \<le> 2 ^ 53 \<longrightarrow>
      num_add (Finite (of_int k)) (Finite 15) = Finite (of_int (k + 15))"
    using num_add_int by blast
  have e: "\<bar>k - 15\<bar> \<le> 2 ^ 53 \<longrightarrow>
      num_sub (Finite (of_int k)) (Finite 15) = Finite (of_int (k - 15))"
    using num_sub_int by blast
  have g: "rotationVisible st \<and> buildingRotation st = Finite (of_int k) \<and>
      \<bar>k\<bar> + 15 * int n \<le> 2 ^ 53 \<longrightarrow>
      buildingRotation (run B oc (replicate n RotateRight) st) = Finite (of_int (k + 15 * int n)) \<and>
      buildingRotation (run B oc (replicate n RotateLeft) st) = Finite (of_int (k - 15 * int n))"
  proof
    assume h: "rotationVisible st \<and> buildingRotation st = Finite (of_int k) \<and>
      \<bar>k\<bar> + 15 * int n \<le> 2 ^ 53"
    then have "run B oc (replicate n RotateRight) st =
        st\<lparr> buildingRotation := Finite (of_int (k + 15 * int n)) \<rparr>"
      and "run B oc (replicate n RotateLeft) st =
        st\<lparr> buildingRotation := Finite (of_int (k - 15 * int n)) \<rparr>"
      by (simp_all only: run_RotateRight run_RotateLeft)
    then show "buildingRotation (run B oc (replicate n RotateRight) st) =
        Finite (of_int (k + 15 * int n)) \<and>
      buildingRotation (run B oc (replicate n RotateLeft) st) = Finite (of_int (k - 15 * int n))"
      by (simp only: buildingRotation_update simp_thms)
  qed
  have i: "st \<in> reachable B oc \<longrightarrow> (\<exists>y. buildingRotation st = Finite y \<and> \<bar>y\<bar> \<le> 2 ^ 57)"
    using reachable_rotation by blast
  from a b c d e g num_add_sticks num_sub_sticks i show ?thesis by (intro conjI)
qed

theorem rotation_stepper_by_15_witness:
  "rotationVisible withBuilding \<and>
   withBuilding \<in> reachable decimalBuiltins True \<and>
   buildingRotation withBuilding = Finite 0 \<and>
   buildingRotation (dispatch decimalBuiltins True RotateRight withBuilding) = Finite 15 \<and>
   buildingRotation (dispatch decimalBuiltins True RotateLeft withBuilding) = Finite (- 15) \<and>
   buildingRotation (run decimalBuiltins True (replicate 25 RotateRight) withBuilding) = Finite 375 \<and>
   buildingRotation (run decimalBuiltins True (replicate 25 RotateLeft) withBuilding) = Finite (- 375) \<and>
   (\<exists>y. buildingRotation withBuilding = Finite y \<and> \<bar>y\<bar> \<le> 2 ^ 57)"
proof -
  have v: "rotationVisible withBuilding"
    by (simp add: withBuilding_eval rotationVisible_def)
  have z: "buildingRotation withBuilding = Finite (of_int 0)"
    by (simp add: withBuilding_eval initial_def)
  have w: "withBuilding \<in> reachable decimalBuiltins True" by (rule sample_runs_reachable)
  have b1: "\<bar>0 + 15\<bar> \<le> (2::int) ^ 53" "\<bar>0 - 15\<bar> \<le> (2::int) ^ 53" by simp_all
  have b25: "\<bar>0\<bar> + 15 * int 25 \<le> (2::int) ^ 53" by simp
  note t = rotation_stepper_by_15
             [of "Finite 0" setBuildingRotation withBuilding decimalBuiltins True 0 25]
  from t v z b1 have r1:
    "buildingRotation (dispatch decimalBuiltins True RotateRight withBuilding) =
       Finite (of_int (0 + 15))"
    "buildingRotation (dispatch decimalBuiltins True RotateLeft withBuilding) =
       Finite (of_int (0 - 15))"
    by (simp_all del: num_add.simps of_int_add of_int_diff)
  from t v z b25 have r25:
    "buildingRotation (run decimalBuiltins True (replicate 25 RotateRight) withBuilding) =
       Finite (of_int (0 + 15 * int 25))"
    "buildingRotation (run decimalBuiltins True (replicate 25 RotateLeft) withBuilding) =
       Finite (of_int (0 - 15 * int 25))"
    by blast+
  from t w have bound: "\<exists>y. buildingRotation withBuilding = Finite y \<and> \<bar>y\<bar> \<le> 2 ^ 57"
    by blast
  from v w z r1 r25 bound show ?thesis by simp
qed

section \<open>The three steps\<close>

text \<open>
  C6: the wizard is a linear machine of three steps. \<open>currentStep\<close> starts at 0 and is 0, 1 or
  2 in every reachable state. \<open>handleNext\<close> adds exactly 1, and only below the last step;
  \<open>handlePrevious\<close> takes exactly 1 away, and only above 0, where the Previous button is
  disabled anyway; no other action changes the step.
\<close>

theorem wizard_three_step_machine:
  "currentStep initial = 0 \<and>
   (st \<in> reachable B oc \<longrightarrow> currentStep st \<in> {0, 1, 2}) \<and>
   currentStep (fst (handleNext oc st)) =
     (if currentStep st < int (length steps) - 1 then currentStep st + 1 else currentStep st) \<and>
   int (length steps) - 1 = 2 \<and>
   currentStep (handlePrevious st) =
     (if currentStep st > 0 then currentStep st - 1 else currentStep st) \<and>
   (currentStep st = 0 \<longrightarrow> dispatch B oc Previous st = st) \<and>
   (e \<noteq> Next \<and> e \<noteq> Previous \<longrightarrow> currentStep (dispatch B oc e st) = currentStep st)"
proof -
  have a: "currentStep initial = 0" by (simp add: initial_def)
  have b: "st \<in> reachable B oc \<longrightarrow> currentStep st \<in> {0, 1, 2}"
    using reachable_currentStep by blast
  have c: "int (length steps) - 1 = 2" by (simp add: steps_def)
  have d: "currentStep (fst (handleNext oc st)) =
     (if currentStep st < int (length steps) - 1 then currentStep st + 1 else currentStep st)"
    unfolding c by (rule currentStep_handleNext)
  have f: "currentStep st = 0 \<longrightarrow> dispatch B oc Previous st = st"
    by (simp add: dispatch_def)
  have g: "e \<noteq> Next \<and> e \<noteq> Previous \<longrightarrow> currentStep (dispatch B oc e st) = currentStep st"
    by (simp add: currentStep_dispatch_other)
  from a b c d f g currentStep_handlePrevious [of st] show ?thesis by blast
qed

theorem wizard_three_step_machine_witness:
  "atExtent \<in> reachable decimalBuiltins True \<and>
   currentStep atExtent = 1 \<and>
   currentStep atExtent \<in> {0, 1, 2} \<and>
   currentStep (fst (handleNext True atExtent)) = 2 \<and>
   currentStep (handlePrevious atExtent) = 0 \<and>
   currentStep initial = 0 \<and>
   dispatch decimalBuiltins True Previous initial = initial \<and>
   currentStep (dispatch decimalBuiltins True (ModeChange Center) atExtent) = 1 \<and>
   currentStep (fst (handleNext True withBuilding)) = 2"
proof -
  have r: "atExtent \<in> reachable decimalBuiltins True" by (rule sample_runs_reachable)
  have s1: "currentStep atExtent = 1" by (simp add: atExtent_eval)
  have s2: "currentStep withBuilding = 2" by (simp add: withBuilding_eval)
  have s0: "currentStep initial = 0" by (simp add: initial_def)
  have m: "ModeChange Center \<noteq> Next \<and> ModeChange Center \<noteq> Previous" by simp
  show ?thesis
    using wizard_three_step_machine [of atExtent decimalBuiltins True "ModeChange Center"]
          wizard_three_step_machine [of initial decimalBuiltins True "ModeChange Center"]
          wizard_three_step_machine [of withBuilding decimalBuiltins True "ModeChange Center"]
          r s1 s2 s0 m
    by simp
qed

section \<open>Finishing\<close>

text \<open>
  C8: the building step is optional. At step 2, the last one, \<open>canProceed\<close> is true whether
  or not a building is placed, so the Finish button is enabled; pressing it leaves the state as
  it is and hands \<^verbatim>\<open>onComplete\<close> the result made of \<open>projectLocation\<close>,
  \<open>projectExtent\<close>, \<open>buildingLocation\<close>, \<open>buildingRotation\<close> and \<open>interactionMode\<close>;
  the application, which gives the wizard that callback, stores it as its
  \<^verbatim>\<open>wizardResult\<close>. (A wizard without the callback would call nothing.)
  A reachable state at step 2 has no building, and its result has \<open>buildingLocation\<close> null.
\<close>

theorem finish_emits_result:
  "(currentStep st = 2 \<longrightarrow>
      canProceed st \<and>
      handleNext onComplete st =
        (st, if onComplete
             then Some \<lparr> projectLocation = projectLocation st,
                         projectExtent = projectExtent st,
                         buildingLocation = buildingLocation st,
                         buildingRotation = buildingRotation st,
                         interactionMode = interactionMode st \<rparr>
             else None) \<and>
      dispatch B onComplete Next st = st \<and>
      App_Next st =
        (st, Some \<lparr> projectLocation = projectLocation st,
                    projectExtent = projectExtent st,
                    buildingLocation = buildingLocation st,
                    buildingRotation = buildingRotation st,
                    interactionMode = interactionMode st \<rparr>)) \<and>
   (\<exists>s r. s \<in> reachable decimalBuiltins True \<and> currentStep s = 2 \<and> buildingLocation s = None \<and>
      canProceed s \<and> App_Next s = (s, Some r) \<and> buildingLocation r = None)"
proof -
  have a: "currentStep st = 2 \<longrightarrow>
      canProceed st \<and>
      handleNext onComplete st =
        (st, if onComplete
             then Some \<lparr> projectLocation = projectLocation st,
                         projectExtent = projectExtent st,
                         buildingLocation = buildingLocation st,
                         buildingRotation = buildingRotation st,
                         interactionMode = interactionMode st \<rparr>
             else None) \<and>
      dispatch B onComplete Next st = st \<and>
      App_Next st =
        (st, Some \<lparr> projectLocation = projectLocation st,
                    projectExtent = projectExtent st,
                    buildingLocation = buildingLocation st,
                    buildingRotation = buildingRotation st,
                    interactionMode = interactionMode st \<rparr>)"
    by (simp add: canProceed_def handleNext_def steps_def dispatch_def App_Next_def
        handleWizardComplete_def Let_def)
  have "atBuilding \<in> reachable decimalBuiltins True" by (rule sample_runs_reachable)
  moreover have "currentStep atBuilding = 2" by (simp add: atBuilding_eval)
  moreover have "buildingLocation atBuilding = None" by (simp add: atBuilding_eval initial_def)
  moreover have "canProceed atBuilding" by (simp add: atBuilding_eval canProceed_def)
  moreover have "App_Next atBuilding =
      (atBuilding, Some \<lparr> projectLocation = projectLocation atBuilding,
                         projectExtent = projectExtent atBuilding,
                         buildingLocation = None,
                         buildingRotation = buildingRotation atBuilding,
                         interactionMode = interactionMode atBuilding \<rparr>)"
    by (simp add: atBuilding_eval handleNext_def steps_def initial_def App_Next_def
        canProceed_def handleWizardComplete_def Let_def)
  ultimately have
    "\<exists>s r. s \<in> reachable decimalBuiltins True \<and> currentStep s = 2 \<and> buildingLocation s = None \<and>
      canProceed s \<and> App_Next s = (s, Some r) \<and> buildingLocation r = None"
    by (intro exI [of _ atBuilding] exI [of _ "\<lparr> projectLocation = projectLocation atBuilding,
                         projectExtent = projectExtent atBuilding,
                         buildingLocation = None,
                         buildingRotation = buildingRotation atBuilding,
                         interactionMode = interactionMode atBuilding \<rparr>"]) simp
  with a show ?thesis by blast
qed

theorem finish_emits_result_witness:
  "currentStep atBuilding = 2 \<and>
   buildingLocation atBuilding = None \<and>
   canProceed atBuilding \<and>
   App_Next atBuilding =
     (atBuilding,
      Some \<lparr> projectLocation = Some samplePoint,
             projectExtent = \<lparr> center = Some samplePoint, radius = Finite 1000 \<rparr>,
             buildingLocation = None,
             buildingRotation = Finite 0,
             interactionMode = Drag \<rparr>) \<and>
   handleNext True atBuilding = App_Next atBuilding \<and>
   handleNext False atBuilding = (atBuilding, None) \<and>
   dispatch decimalBuiltins True Next atBuilding = atBuilding \<and>
   currentStep withBuilding = 2 \<and>
   buildingLocation withBuilding = Some samplePoint \<and>
   App_Next withBuilding =
     (withBuilding,
      Some \<lparr> projectLocation = Some samplePoint,
             projectExtent = \<lparr> center = Some samplePoint, radius = Finite 1000 \<rparr>,
             buildingLocation = Some samplePoint,
             buildingRotation = Finite 0,
             interactionMode = Drag \<rparr>)"
proof -
  have s: "currentStep atBuilding = 2" "currentStep withBuilding = 2"
    by (simp_all add: atBuilding_eval withBuilding_eval)
  have f: "projectLocation atBuilding = Some samplePoint"
    "projectExtent atBuilding = \<lparr> center = Some samplePoint, radius = Finite 1000 \<rparr>"
    "buildingLocation atBuilding = None"
    "buildingRotation atBuilding = Finite 0"
    "interactionMode atBuilding = Drag"
    by (simp_all add: atBuilding_eval initial_def)
  have g: "projectLocation withBuilding = Some samplePoint"
    "projectExtent withBuilding = \<lparr> center = Some samplePoint, radius = Finite 1000 \<rparr>"
    "buildingLocation withBuilding = Some samplePoint"
    "buildingRotation withBuilding = Finite 0"
    "interactionMode withBuilding = Drag"
    by (simp_all add: withBuilding_eval initial_def)
  show ?thesis
    using finish_emits_result [of atBuilding True decimalBuiltins]
          finish_emits_result [of atBuilding False decimalBuiltins]
          finish_emits_result [of withBuilding True decimalBuiltins] s f g
    by simp
qed

section \<open>The coordinate pattern decides its language\<close>

lemma nullable_lang: "nullable r \<longleftrightarrow> [] \<in> lang r"
  by (induction r) (auto intro: star.star_nil)

lemma star_cons_split:
  assumes "w \<in> star A" and "w = c # x"
  shows "\<exists>u v. x = u @ v \<and> c # u \<in> A \<and> v \<in> star A"
  using assms
proof (induction arbitrary: x rule: star.induct)
  case star_nil
  then show ?case by simp
next
  case (star_app u v)
  show ?case
  proof (cases u)
    case Nil
    with star_app show ?thesis by simp
  next
    case (Cons a u')
    with star_app.prems have "a = c" and "x = u' @ v" by simp_all
    with Cons star_app.hyps show ?thesis by blast
  qed
qed

lemma star_cons_iff:
  "c # x \<in> star A \<longleftrightarrow> (\<exists>u v. x = u @ v \<and> c # u \<in> A \<and> v \<in> star A)"
proof
  assume "c # x \<in> star A"
  then show "\<exists>u v. x = u @ v \<and> c # u \<in> A \<and> v \<in> star A"
    using star_cons_split by blast
next
  assume "\<exists>u v. x = u @ v \<and> c # u \<in> A \<and> v \<in> star A"
  then obtain u v where "x = u @ v" "c # u \<in> A" "v \<in> star A" by blast
  then show "c # x \<in> star A"
    using star.star_app [of "c # u" A v] by simp
qed

lemma conc_cons_iff:
  "c # w \<in> {u @ v | u v. u \<in> A \<and> v \<in> B} \<longleftrightarrow>
     (\<exists>u v. w = u @ v \<and> c # u \<in> A \<and> v \<in> B) \<or> ([] \<in> A \<and> c # w \<in> B)"
  by (auto simp: Cons_eq_append_conv)

lemma lang_deriv: "w \<in> lang (deriv c r) \<longleftrightarrow> c # w \<in> lang r"
proof (induction r arbitrary: w)
  case (RSeq r s)
  have "c # w \<in> lang (RSeq r s) \<longleftrightarrow>
      (\<exists>u v. w = u @ v \<and> c # u \<in> lang r \<and> v \<in> lang s) \<or> ([] \<in> lang r \<and> c # w \<in> lang s)"
    unfolding lang.simps by (rule conc_cons_iff)
  with RSeq show ?case
    by (auto simp: nullable_lang)
next
  case (RStar r)
  then show ?case by (auto simp: star_cons_iff)
qed auto

lemma test_lang: "test r w \<longleftrightarrow> w \<in> lang r"
  by (induction w arbitrary: r) (simp_all add: nullable_lang lang_deriv)

lemma lang_rseq_append:
  "lang (rseq (xs @ ys)) = {u @ v | u v. u \<in> lang (rseq xs) \<and> v \<in> lang (rseq ys)}"
proof (induction xs)
  case Nil
  show ?case by simp
next
  case (Cons r xs)
  show ?case
  proof (rule set_eqI, rule iffI)
    fix w
    assume "w \<in> lang (rseq ((r # xs) @ ys))"
    then obtain u x where "w = u @ x" "u \<in> lang r" "x \<in> lang (rseq (xs @ ys))"
      by auto
    moreover then obtain v z where "x = v @ z" "v \<in> lang (rseq xs)" "z \<in> lang (rseq ys)"
      using Cons.IH by auto
    ultimately have "w = (u @ v) @ z" "u @ v \<in> lang (rseq (r # xs))" "z \<in> lang (rseq ys)"
      by auto
    then show "w \<in> {u @ v | u v. u \<in> lang (rseq (r # xs)) \<and> v \<in> lang (rseq ys)}"
      by blast
  next
    fix w
    assume "w \<in> {u @ v | u v. u \<in> lang (rseq (r # xs)) \<and> v \<in> lang (rseq ys)}"
    then obtain u v z where "w = (u @ v) @ z" "u \<in> lang r" "v \<in> lang (rseq xs)"
      "z \<in> lang (rseq ys)"
      by auto
    then have "w = u @ (v @ z)" "u \<in> lang r" "v @ z \<in> lang (rseq (xs @ ys))"
      using Cons.IH by auto
    then show "w \<in> lang (rseq ((r # xs) @ ys))"
      by auto
  qed
qed

lemma star_alphabet:
  assumes "w \<in> star A" and "\<And>u. u \<in> A \<Longrightarrow> set u \<subseteq> C"
  shows "set w \<subseteq> C"
  using assms by (induction rule: star.induct) auto

lemma lang_alphabet: "w \<in> lang r \<Longrightarrow> set w \<subseteq> alphabet r"
proof (induction r arbitrary: w)
  case (RStar r)
  then show ?case using star_alphabet [of w "lang r" "alphabet r"] by simp
next
  case (RSeq r s)
  then show ?case by fastforce
qed auto

lemma coordinate_no_comma: "test (rseq coordinate) a \<Longrightarrow> CHR '','' \<notin> set a"
proof
  assume "test (rseq coordinate) a" and "CHR '','' \<in> set a"
  then have "CHR '','' \<in> alphabet (rseq coordinate)"
    using lang_alphabet [of a "rseq coordinate"] by (auto simp: test_lang)
  then show False
    by (simp add: coordinate_def isDigit_def)
qed

text \<open>A string the pattern admits is two numerals with one comma between them.\<close>

lemma coordPattern_iff:
  "test coordPattern s \<longleftrightarrow>
     (\<exists>a b. s = a @ CHR '','' # b \<and> test (rseq coordinate) a \<and> test (rseq coordinate) b)"
  by (auto simp: coordPattern_def test_lang lang_rseq_append)

lemma split_no_sep: "sep \<notin> set b \<Longrightarrow> split sep b = [b]"
  by (induction b) auto

lemma split_at_sep: "sep \<notin> set a \<Longrightarrow> split sep (a @ sep # b) = a # split sep b"
  by (induction a) auto

lemma split_coordPattern:
  assumes "test (rseq coordinate) a" and "test (rseq coordinate) b"
  shows "split CHR '','' (a @ CHR '','' # b) = [a, b]"
  using assms by (simp add: split_at_sep split_no_sep coordinate_no_comma)

lemma geocodeLocation_coordinates:
  assumes "test (rseq coordinate) a" and "test (rseq coordinate) b"
  shows "geocodeLocation (a @ CHR '','' # b) = (Number a, Number b)"
proof -
  have "test coordPattern (a @ CHR '','' # b)"
    using assms coordPattern_iff by blast
  then show ?thesis
    using assms by (simp add: geocodeLocation_def split_coordPattern)
qed

lemmas pattern_eval_simps = coordPattern_def coordinate_def isDigit_def

lemmas Number_eval_simps =
  decimalNumber_def coordinate_def isDigit_def unsignedValue_def digitsValue_def digitValue_def

text \<open>\<open>Number\<close> at sample numerals, and at one too long for a double.\<close>

lemma Number_int:
  assumes "decimalNumber s = Finite (of_int k)" and "\<bar>k\<bar> \<le> 2 ^ 53"
  shows "Number s = Finite (of_int k)"
  using assms by (simp only: Number_def number.case toDouble_int_exact)

lemma Number_999: "Number ''999'' = Finite 999"
proof -
  have "decimalNumber ''999'' = Finite (of_int 999)" by (simp add: Number_eval_simps)
  then have "Number ''999'' = Finite (of_int 999)" by (rule Number_int) simp
  then show ?thesis by simp
qed

lemma Number_minus_91: "Number ''-91'' = Finite (- 91)"
proof -
  have "decimalNumber ''-91'' = Finite (of_int (- 91))" by (simp add: Number_eval_simps)
  then have "Number ''-91'' = Finite (of_int (- 91))" by (rule Number_int) simp
  then show ?thesis by simp
qed

lemma Number_200: "Number ''200'' = Finite 200"
proof -
  have "decimalNumber ''200'' = Finite (of_int 200)" by (simp add: Number_eval_simps)
  then have "Number ''200'' = Finite (of_int 200)" by (rule Number_int) simp
  then show ?thesis by simp
qed

lemma Number_0: "Number ''0'' = Finite 0"
proof -
  have "decimalNumber ''0'' = Finite (of_int 0)" by (simp add: Number_eval_simps)
  then have "Number ''0'' = Finite (of_int 0)" by (rule Number_int) simp
  then show ?thesis by simp
qed

lemma lang_RSeq_I: "u \<in> lang r \<Longrightarrow> v \<in> lang s \<Longrightarrow> u @ v \<in> lang (RSeq r s)"
  by auto

lemma digits_in_star: "\<forall>c \<in> set cs. isDigit c \<Longrightarrow> cs \<in> lang (RStar RDigit)"
proof (induction cs)
  case Nil
  show ?case by (simp add: star.star_nil)
next
  case (Cons c cs)
  then have "[c] \<in> lang RDigit" and "cs \<in> star (lang RDigit)" by simp_all
  then have "[c] @ cs \<in> star (lang RDigit)" by (rule star.star_app)
  then show ?case by simp
qed

lemma digits_coordinate:
  assumes "isDigit c" and "\<forall>d \<in> set cs. isDigit d"
  shows "test (rseq coordinate) (c # cs)"
proof -
  have d1: "[c] \<in> lang RDigit" using assms(1) by simp
  have d2: "cs \<in> lang (RStar RDigit)" using assms(2) by (rule digits_in_star)
  have plus: "[c] @ cs \<in> lang (RPlus RDigit)" using d1 d2 by (rule lang_RSeq_I)
  have e: "[] \<in> lang REps" by simp
  have st: "[] \<in> lang (RStar RDigit)" by (simp add: star.star_nil)
  have dot: "[] \<in> lang (ROpt (RChar CHR ''.''))" by simp
  have minus: "[] \<in> lang (ROpt (RChar CHR ''-''))" by simp
  have "[] @ [] \<in> lang (RSeq (RStar RDigit) REps)" using st e by (rule lang_RSeq_I)
  with dot have "[] @ ([] @ []) \<in> lang (RSeq (ROpt (RChar CHR ''.'')) (RSeq (RStar RDigit) REps))"
    by (rule lang_RSeq_I)
  with plus have "([c] @ cs) @ ([] @ ([] @ [])) \<in>
      lang (RSeq (RPlus RDigit) (RSeq (ROpt (RChar CHR ''.'')) (RSeq (RStar RDigit) REps)))"
    by (rule lang_RSeq_I)
  with minus have "[] @ (([c] @ cs) @ ([] @ ([] @ []))) \<in> lang (rseq coordinate)"
    unfolding coordinate_def rseq.simps by (rule lang_RSeq_I)
  then show ?thesis by (simp add: test_lang)
qed

lemma decimalNumber_digits:
  assumes "isDigit c" and "\<forall>d \<in> set cs. isDigit d"
  shows "decimalNumber (c # cs) = Finite (real (digitsValue (c # cs)))"
proof -
  have t: "test (rseq coordinate) (c # cs)" using assms by (rule digits_coordinate)
  have "\<forall>d \<in> set (c # cs). isDigit d" using assms by simp
  then have all: "takeWhile isDigit (c # cs) = c # cs" "dropWhile isDigit (c # cs) = []"
    by (simp_all only: takeWhile_eq_all_conv dropWhile_eq_Nil_conv)
  have u: "unsignedValue (c # cs) = real (digitsValue (c # cs))"
    by (simp only: unsignedValue_def Let_def all) (simp add: digitsValue_def)
  have "c \<noteq> CHR ''-''" using assms(1) by (auto simp: isDigit_def)
  with t u show ?thesis by (simp only: decimalNumber_def if_True if_False list.case)
qed

lemma digitsValue_zeros:
  "foldl (\<lambda>n c. 10 * n + digitValue c) m (replicate k CHR ''0'') = m * 10 ^ k"
  by (induction k arbitrary: m) (simp_all add: digitValue_def)

lemma digitsValue_one_zeros: "digitsValue (CHR ''1'' # replicate k CHR ''0'') = 10 ^ k"
proof -
  have "digitsValue (CHR ''1'' # replicate k CHR ''0'') =
      foldl (\<lambda>n c. 10 * n + digitValue c) (10 * 0 + digitValue CHR ''1'') (replicate k CHR ''0'')"
    by (simp only: digitsValue_def foldl_Cons)
  also have "\<dots> = (10 * 0 + digitValue CHR ''1'') * 10 ^ k" by (rule digitsValue_zeros)
  also have "10 * 0 + digitValue CHR ''1'' = 1" by (simp add: digitValue_def)
  finally show ?thesis by simp
qed

lemma Number_overflow: "Number (CHR ''1'' # replicate 309 CHR ''0'') = PosInfinity"
proof -
  have digits: "isDigit CHR ''1''" "\<forall>d \<in> set (replicate 309 CHR ''0''). isDigit d"
    by (simp_all add: isDigit_def)
  then have "decimalNumber (CHR ''1'' # replicate 309 CHR ''0'') =
      Finite (real (digitsValue (CHR ''1'' # replicate 309 CHR ''0'')))"
    by (rule decimalNumber_digits)
  then have d: "decimalNumber (CHR ''1'' # replicate 309 CHR ''0'') = Finite (real (10 ^ 309))"
    by (simp only: digitsValue_one_zeros)
  have "(2::real) ^ 1024 \<le> real (10 ^ 309)" by simp
  then have "toDouble (real (10 ^ 309)) = PosInfinity" by (rule toDouble_overflow)
  with d show ?thesis by (simp only: Number_def number.case)
qed

section \<open>Forward geocoding\<close>

text \<open>
  C9: for every search term that the coordinate pattern does not admit, \<open>geocodeLocation\<close>
  returns the fixed pair 40.7128, -74.0060. It has no \<^verbatim>\<open>fetch\<close> outcome among its
  arguments: it calls no service. So \<open>handleSearch\<close> centres the map on that pair for every
  such term, and at step 0 makes it the project location.
\<close>

theorem geocodeLocation_fixed_for_addresses:
  "\<not> test coordPattern searchTerm \<Longrightarrow>
     geocodeLocation searchTerm = (Finite 40.7128, Finite (- 74.0060)) \<and>
     mapCenter (handleSearch B fr searchTerm st) = (Finite 40.7128, Finite (- 74.0060)) \<and>
     (currentStep st = 0 \<longrightarrow>
        projectLocation (handleSearch B fr searchTerm st) = Some (Finite 40.7128, Finite (- 74.0060)))"
  by (simp add: geocodeLocation_def handleSearch_def Let_def split: sum.splits)

theorem geocodeLocation_fixed_for_addresses_witness:
  "\<not> test coordPattern ''Berlin'' \<and>
   geocodeLocation ''Berlin'' = (Finite 40.7128, Finite (- 74.0060)) \<and>
   \<not> test coordPattern ''52.52, 13.40'' \<and>
   geocodeLocation ''52.52, 13.40'' = (Finite 40.7128, Finite (- 74.0060)) \<and>
   mapCenter (handleSearch decimalBuiltins Rejected ''Berlin'' initial) =
     (Finite 40.7128, Finite (- 74.0060)) \<and>
   currentStep initial = 0 \<and>
   projectLocation (handleSearch decimalBuiltins Rejected ''Berlin'' initial) =
     Some (Finite 40.7128, Finite (- 74.0060))"
proof -
  have a: "\<not> test coordPattern ''Berlin''" by (simp add: pattern_eval_simps)
  have b: "\<not> test coordPattern ''52.52, 13.40''" by (simp add: pattern_eval_simps)
  have c: "currentStep initial = 0" by (simp add: initial_def)
  show ?thesis
    using geocodeLocation_fixed_for_addresses [OF a, of decimalBuiltins Rejected initial]
          geocodeLocation_fixed_for_addresses [OF b, of decimalBuiltins Rejected initial] a b c
    by simp
qed

lemma handleSearch_coordinates:
  "test coordPattern searchTerm \<Longrightarrow>
     handleSearch B fr searchTerm st =
       (if currentStep st = 0
        then st\<lparr> mapCenter := geocodeLocation searchTerm, mapZoom := Finite 15,
                 projectLocation := Some (geocodeLocation searchTerm),
                 searchAddress := JString searchTerm \<rparr>
        else st\<lparr> mapCenter := geocodeLocation searchTerm, mapZoom := Finite 15 \<rparr>)"
  by (simp add: handleSearch_def Let_def)

text \<open>
  C10: a search term the coordinate pattern admits is two numerals \<open>a\<close> and \<open>b\<close> around one
  comma; \<open>geocodeLocation\<close> returns \<open>Number a\<close> and \<open>Number b\<close> as they are, and
  \<open>handleSearch\<close> stores the pair as map centre and, at step 0, as project location. No range
  is checked: the term \<^verbatim>\<open>999,999\<close> leaves a project location whose latitude is not in
  [-90, 90] and whose longitude is not in [-180, 180], and a numeral of 310 digits leaves an
  infinite one.
\<close>

theorem coordinate_search_stored_unchecked:
  "(test coordPattern searchTerm \<longrightarrow>
      (\<exists>a b.
         searchTerm = a @ '','' @ b \<and> split CHR '','' searchTerm = [a, b] \<and>
         geocodeLocation searchTerm = (Number a, Number b) \<and>
         mapCenter (handleSearch B fr searchTerm st) = (Number a, Number b) \<and>
         (currentStep st = 0 \<longrightarrow>
            projectLocation (handleSearch B fr searchTerm st) = Some (Number a, Number b)))) \<and>
   test coordPattern ''999,999'' \<and>
   projectLocation (handleSearch B fr ''999,999'' initial) = Some (Finite 999, Finite 999) \<and>
   mapCenter (handleSearch B fr ''999,999'' initial) = (Finite 999, Finite 999) \<and>
   \<not> num_le (Finite 999) (Finite 90) \<and>
   \<not> num_le (Finite 999) (Finite 180) \<and>
   projectLocation (handleSearch B fr ((CHR ''1'' # replicate 309 CHR ''0'') @ '',0'') initial) =
     Some (PosInfinity, Finite 0)"
proof -
  have general: "test coordPattern searchTerm \<longrightarrow>
      (\<exists>a b.
         searchTerm = a @ '','' @ b \<and> split CHR '','' searchTerm = [a, b] \<and>
         geocodeLocation searchTerm = (Number a, Number b) \<and>
         mapCenter (handleSearch B fr searchTerm st) = (Number a, Number b) \<and>
         (currentStep st = 0 \<longrightarrow>
            projectLocation (handleSearch B fr searchTerm st) = Some (Number a, Number b)))"
  proof
    assume t: "test coordPattern searchTerm"
    then obtain a b where ab: "searchTerm = a @ CHR '','' # b"
      "test (rseq coordinate) a" "test (rseq coordinate) b"
      using coordPattern_iff by blast
    have g: "geocodeLocation searchTerm = (Number a, Number b)"
      using ab by (simp add: geocodeLocation_coordinates)
    have sp: "split CHR '','' searchTerm = [a, b]"
      using ab by (simp add: split_coordPattern)
    have "searchTerm = a @ '','' @ b" using ab by simp
    moreover have "mapCenter (handleSearch B fr searchTerm st) = (Number a, Number b)"
      using t g by (simp add: handleSearch_coordinates)
    moreover have "currentStep st = 0 \<longrightarrow>
        projectLocation (handleSearch B fr searchTerm st) = Some (Number a, Number b)"
      using t g by (simp add: handleSearch_coordinates)
    ultimately show "\<exists>a b.
         searchTerm = a @ '','' @ b \<and> split CHR '','' searchTerm = [a, b] \<and>
         geocodeLocation searchTerm = (Number a, Number b) \<and>
         mapCenter (handleSearch B fr searchTerm st) = (Number a, Number b) \<and>
         (currentStep st = 0 \<longrightarrow>
            projectLocation (handleSearch B fr searchTerm st) = Some (Number a, Number b))"
      using g sp by blast
  qed
  have t: "test coordPattern ''999,999''" by (simp add: pattern_eval_simps)
  have c: "test (rseq coordinate) ''999''" by (simp add: coordinate_def isDigit_def)
  have "geocodeLocation (''999'' @ CHR '','' # ''999'') = (Number ''999'', Number ''999'')"
    using c c by (rule geocodeLocation_coordinates)
  then have g: "geocodeLocation ''999,999'' = (Finite 999, Finite 999)"
    by (simp add: Number_999)
  have p: "projectLocation (handleSearch B fr ''999,999'' initial) = Some (Finite 999, Finite 999)"
    using t g by (simp add: handleSearch_coordinates initial_def)
  have m: "mapCenter (handleSearch B fr ''999,999'' initial) = (Finite 999, Finite 999)"
    using t g by (simp add: handleSearch_coordinates initial_def)
  let ?long = "CHR ''1'' # replicate 309 CHR ''0''"
  have l: "test (rseq coordinate) ?long"
    by (rule digits_coordinate) (simp_all add: isDigit_def)
  have z: "test (rseq coordinate) ''0''" by (simp add: coordinate_def isDigit_def)
  have tl: "test coordPattern (?long @ CHR '','' # ''0'')"
    using l z coordPattern_iff by blast
  have "geocodeLocation (?long @ CHR '','' # ''0'') = (Number ?long, Number ''0'')"
    using l z by (rule geocodeLocation_coordinates)
  then have gl: "geocodeLocation (?long @ CHR '','' # ''0'') = (PosInfinity, Finite 0)"
    by (simp only: Number_overflow Number_0)
  have "projectLocation (handleSearch B fr (?long @ CHR '','' # ''0'') initial) =
      Some (PosInfinity, Finite 0)"
    using tl gl by (simp add: handleSearch_coordinates initial_def)
  then have pl: "projectLocation (handleSearch B fr (?long @ '',0'') initial) =
      Some (PosInfinity, Finite 0)"
    by simp
  from general t p m pl show ?thesis by simp
qed

theorem coordinate_search_stored_unchecked_witness:
  "test coordPattern ''-91,200'' \<and>
   split CHR '','' ''-91,200'' = [''-91'', ''200''] \<and>
   geocodeLocation ''-91,200'' = (Finite (- 91), Finite 200) \<and>
   currentStep initial = 0 \<and>
   projectLocation (handleSearch decimalBuiltins Rejected ''-91,200'' initial) =
     Some (Finite (- 91), Finite 200) \<and>
   mapCenter (handleSearch decimalBuiltins Rejected ''-91,200'' initial) =
     (Finite (- 91), Finite 200) \<and>
   \<not> num_le (Finite (- 90)) (Finite (- 91)) \<and>
   \<not> num_le (Finite 200) (Finite 180)"
proof -
  have t: "test coordPattern ''-91,200''" by (simp add: pattern_eval_simps)
  have sp: "split CHR '','' ''-91,200'' = [''-91'', ''200'']" by simp
  have c: "currentStep initial = 0" by (simp add: initial_def)
  from coordinate_search_stored_unchecked [of "''-91,200''" decimalBuiltins Rejected initial] t
  obtain a b where ab: "split CHR '','' ''-91,200'' = [a, b]"
    "geocodeLocation ''-91,200'' = (Number a, Number b)"
    "mapCenter (handleSearch decimalBuiltins Rejected ''-91,200'' initial) = (Number a, Number b)"
    "currentStep initial = 0 \<longrightarrow>
       projectLocation (handleSearch decimalBuiltins Rejected ''-91,200'' initial) =
         Some (Number a, Number b)"
    by blast
  from ab(1) sp have "a = ''-91''" "b = ''200''" by simp_all
  with ab t sp c show ?thesis by (simp add: Number_minus_91 Number_200)
qed

section \<open>Editing the coordinates in the tooltip\<close>

lemma num_in_range:
  "\<not> isNaN n \<and> num_le (Finite lo) n \<and> num_le n (Finite hi) \<longleftrightarrow>
     (\<exists>v. n = Finite v \<and> lo \<le> v \<and> v \<le> hi)"
  by (cases n) auto

lemma projectLocation_handleCoordinateChange:
  "projectLocation (handleCoordinateChange B fr x y st) = Some (x, y)"
  by (simp add: handleCoordinateChange_def Let_def split: sum.splits)

lemma handleLatChange_parent:
  "snd (handleLatChange B (lat, lng) f value (t, s)) =
     (case parseFloat B value of
        Finite v \<Rightarrow> if - 90 \<le> v \<and> v \<le> 90 then f (Finite v) lng s else s
      | _ \<Rightarrow> s)"
  by (simp add: handleLatChange_def Let_def split: number.splits)

lemma handleLngChange_parent:
  "snd (handleLngChange B (lat, lng) f value (t, s)) =
     (case parseFloat B value of
        Finite v \<Rightarrow> if - 180 \<le> v \<and> v \<le> 180 then f lat (Finite v) s else s
      | _ \<Rightarrow> s)"
  by (simp add: handleLngChange_def Let_def split: number.splits)

text \<open>
  C7: an edit of the tooltip's latitude field changes the position only when the parsed value
  is a number in [-90, 90], and then to that latitude with the longitude as it was; an edit of
  the longitude field only when the parsed value is a number in [-180, 180], and then with the
  latitude as it was. For any other text (not a number, or out of range) the wizard's state,
  the position with it, stays as it is. The tooltip is on the page at step 0 once a project
  location is set.
\<close>

theorem tooltip_edit_range_checked:
  "snd (handleLatChange B (lat, lng) f value (t, s)) =
     (case parseFloat B value of
        Finite v \<Rightarrow> if - 90 \<le> v \<and> v \<le> 90 then f (Finite v) lng s else s
      | _ \<Rightarrow> s) \<and>
   snd (handleLngChange B (lat, lng) f value (t, s)) =
     (case parseFloat B value of
        Finite v \<Rightarrow> if - 180 \<le> v \<and> v \<le> 180 then f lat (Finite v) s else s
      | _ \<Rightarrow> s) \<and>
   (currentStep st = 0 \<and> projectLocation st = Some (lat, lng) \<longrightarrow>
      ((\<exists>v. parseFloat B value = Finite v \<and> - 90 \<le> v \<and> v \<le> 90) \<longrightarrow>
         projectLocation (dispatch B oc (LatEdit value fr) st) = Some (parseFloat B value, lng)) \<and>
      (\<not> (\<exists>v. parseFloat B value = Finite v \<and> - 90 \<le> v \<and> v \<le> 90) \<longrightarrow>
         dispatch B oc (LatEdit value fr) st = st) \<and>
      ((\<exists>v. parseFloat B value = Finite v \<and> - 180 \<le> v \<and> v \<le> 180) \<longrightarrow>
         projectLocation (dispatch B oc (LngEdit value fr) st) = Some (lat, parseFloat B value)) \<and>
      (\<not> (\<exists>v. parseFloat B value = Finite v \<and> - 180 \<le> v \<and> v \<le> 180) \<longrightarrow>
         dispatch B oc (LngEdit value fr) st = st))"
proof -
  have page: "currentStep st = 0 \<and> projectLocation st = Some (lat, lng) \<longrightarrow>
      ((\<exists>v. parseFloat B value = Finite v \<and> - 90 \<le> v \<and> v \<le> 90) \<longrightarrow>
         projectLocation (dispatch B oc (LatEdit value fr) st) = Some (parseFloat B value, lng)) \<and>
      (\<not> (\<exists>v. parseFloat B value = Finite v \<and> - 90 \<le> v \<and> v \<le> 90) \<longrightarrow>
         dispatch B oc (LatEdit value fr) st = st) \<and>
      ((\<exists>v. parseFloat B value = Finite v \<and> - 180 \<le> v \<and> v \<le> 180) \<longrightarrow>
         projectLocation (dispatch B oc (LngEdit value fr) st) = Some (lat, parseFloat B value)) \<and>
      (\<not> (\<exists>v. parseFloat B value = Finite v \<and> - 180 \<le> v \<and> v \<le> 180) \<longrightarrow>
         dispatch B oc (LngEdit value fr) st = st)"
  proof
    assume h: "currentStep st = 0 \<and> projectLocation st = Some (lat, lng)"
    have st: "currentStep st = 0" "projectLocation st = Some (lat, lng)"
      using h by simp_all
    have lat_in: "dispatch B oc (LatEdit value fr) st =
        handleCoordinateChange B fr (parseFloat B value) lng st"
      if "\<exists>v. parseFloat B value = Finite v \<and> - 90 \<le> v \<and> v \<le> 90"
    proof -
      from that have "\<not> isNaN (parseFloat B value) \<and>
          num_le (Finite (- 90)) (parseFloat B value) \<and> num_le (parseFloat B value) (Finite 90)"
        by (simp add: num_in_range)
      then show ?thesis
        by (simp add: dispatch_def handleLatChange_def Let_def st)
    qed
    have lat_out: "dispatch B oc (LatEdit value fr) st = st"
      if "\<not> (\<exists>v. parseFloat B value = Finite v \<and> - 90 \<le> v \<and> v \<le> 90)"
    proof -
      from that have "\<not> (\<not> isNaN (parseFloat B value) \<and>
          num_le (Finite (- 90)) (parseFloat B value) \<and> num_le (parseFloat B value) (Finite 90))"
        by (simp only: num_in_range not_False_eq_True)
      then show ?thesis
        by (auto simp add: dispatch_def handleLatChange_def Let_def st)
    qed
    have lng_in: "dispatch B oc (LngEdit value fr) st =
        handleCoordinateChange B fr lat (parseFloat B value) st"
      if "\<exists>v. parseFloat B value = Finite v \<and> - 180 \<le> v \<and> v \<le> 180"
    proof -
      from that have "\<not> isNaN (parseFloat B value) \<and>
          num_le (Finite (- 180)) (parseFloat B value) \<and> num_le (parseFloat B value) (Finite 180)"
        by (simp add: num_in_range)
      then show ?thesis
        by (simp add: dispatch_def handleLngChange_def Let_def st)
    qed
    have lng_out: "dispatch B oc (LngEdit value fr) st = st"
      if "\<not> (\<exists>v. parseFloat B value = Finite v \<and> - 180 \<le> v \<and> v \<le> 180)"
    proof -
      from that have "\<not> (\<not> isNaN (parseFloat B value) \<and>
          num_le (Finite (- 180)) (parseFloat B value) \<and> num_le (parseFloat B value) (Finite 180))"
        by (simp only: num_in_range not_False_eq_True)
      then show ?thesis
        by (auto simp add: dispatch_def handleLngChange_def Let_def st)
    qed
    show "((\<exists>v. parseFloat B value = Finite v \<and> - 90 \<le> v \<and> v \<le> 90) \<longrightarrow>
         projectLocation (dispatch B oc (LatEdit value fr) st) = Some (parseFloat B value, lng)) \<and>
      (\<not> (\<exists>v. parseFloat B value = Finite v \<and> - 90 \<le> v \<and> v \<le> 90) \<longrightarrow>
         dispatch B oc (LatEdit value fr) st = st) \<and>
      ((\<exists>v. parseFloat B value = Finite v \<and> - 180 \<le> v \<and> v \<le> 180) \<longrightarrow>
         projectLocation (dispatch B oc (LngEdit value fr) st) = Some (lat, parseFloat B value)) \<and>
      (\<not> (\<exists>v. parseFloat B value = Finite v \<and> - 180 \<le> v \<and> v \<le> 180) \<longrightarrow>
         dispatch B oc (LngEdit value fr) st = st)"
      using lat_in lat_out lng_in lng_out
      by (metis projectLocation_handleCoordinateChange)
  qed
  from handleLatChange_parent [of B lat lng f "value" t s]
       handleLngChange_parent [of B lat lng f "value" t s] page
  show ?thesis by blast
qed

theorem tooltip_edit_range_checked_witness:
  "currentStep placedProject = 0 \<and>
   projectLocation placedProject = Some (Finite sampleLat, Finite sampleLng) \<and>
   parseFloat decimalBuiltins ''45.5'' = Finite 45.5 \<and>
   projectLocation (dispatch decimalBuiltins True (LatEdit ''45.5'' Rejected) placedProject) =
     Some (Finite 45.5, Finite sampleLng) \<and>
   projectLocation (dispatch decimalBuiltins True (LngEdit ''45.5'' Rejected) placedProject) =
     Some (Finite sampleLat, Finite 45.5) \<and>
   parseFloat decimalBuiltins ''91'' = Finite 91 \<and>
   dispatch decimalBuiltins True (LatEdit ''91'' Rejected) placedProject = placedProject \<and>
   parseFloat decimalBuiltins ''-180.5'' = Finite (- 180.5) \<and>
   dispatch decimalBuiltins True (LngEdit ''-180.5'' Rejected) placedProject = placedProject \<and>
   parseFloat decimalBuiltins ''north'' = NaN \<and>
   dispatch decimalBuiltins True (LatEdit ''north'' Rejected) placedProject = placedProject \<and>
   dispatch decimalBuiltins True (LngEdit ''north'' Rejected) placedProject = placedProject"
proof -
  have s: "currentStep placedProject = 0"
    by (simp add: placedProject_eval initial_def)
  have p: "projectLocation placedProject = Some (Finite sampleLat, Finite sampleLng)"
    by (simp add: placedProject_eval samplePoint_def)
  have a: "parseFloat decimalBuiltins ''45.5'' = Finite 45.5"
    by (simp add: decimalBuiltins_def Number_eval_simps)
  have b: "parseFloat decimalBuiltins ''91'' = Finite 91"
    by (simp add: decimalBuiltins_def Number_eval_simps)
  have c: "parseFloat decimalBuiltins ''-180.5'' = Finite (- 180.5)"
    by (simp add: decimalBuiltins_def Number_eval_simps)
  have d: "parseFloat decimalBuiltins ''north'' = NaN"
    by (simp add: decimalBuiltins_def Number_eval_simps)
  have lat_ok: "\<exists>v. parseFloat decimalBuiltins ''45.5'' = Finite v \<and> - 90 \<le> v \<and> v \<le> 90"
    by (rule exI [of _ "45.5"]) (simp add: a)
  have lng_ok: "\<exists>v. parseFloat decimalBuiltins ''45.5'' = Finite v \<and> - 180 \<le> v \<and> v \<le> 180"
    by (rule exI [of _ "45.5"]) (simp add: a)
  have lat_high: "\<not> (\<exists>v. parseFloat decimalBuiltins ''91'' = Finite v \<and> - 90 \<le> v \<and> v \<le> 90)"
    using b by simp
  have lng_low:
    "\<not> (\<exists>v. parseFloat decimalBuiltins ''-180.5'' = Finite v \<and> - 180 \<le> v \<and> v \<le> 180)"
    using c by simp
  have lat_nan: "\<not> (\<exists>v. parseFloat decimalBuiltins ''north'' = Finite v \<and> - 90 \<le> v \<and> v \<le> 90)"
    using d by simp
  have lng_nan:
    "\<not> (\<exists>v. parseFloat decimalBuiltins ''north'' = Finite v \<and> - 180 \<le> v \<and> v \<le> 180)"
    using d by simp
  note t = tooltip_edit_range_checked
             [of decimalBuiltins "Finite sampleLat" "Finite sampleLng"
                 "handleCoordinateChange decimalBuiltins Rejected" _
                 "CoordinateTooltip decimalBuiltins samplePoint"
                 placedProject placedProject True Rejected]
  have r1: "projectLocation (dispatch decimalBuiltins True (LatEdit ''45.5'' Rejected) placedProject) =
      Some (parseFloat decimalBuiltins ''45.5'', Finite sampleLng)"
    using t [of "''45.5''"] s p lat_ok by blast
  have r2: "projectLocation (dispatch decimalBuiltins True (LngEdit ''45.5'' Rejected) placedProject) =
      Some (Finite sampleLat, parseFloat decimalBuiltins ''45.5'')"
    using t [of "''45.5''"] s p lng_ok by blast
  have r3: "dispatch decimalBuiltins True (LatEdit ''91'' Rejected) placedProject = placedProject"
    using t [of "''91''"] s p lat_high by blast
  have r4: "dispatch decimalBuiltins True (LngEdit ''-180.5'' Rejected) placedProject = placedProject"
    using t [of "''-180.5''"] s p lng_low by blast
  have r5: "dispatch decimalBuiltins True (LatEdit ''north'' Rejected) placedProject = placedProject"
    using t [of "''north''"] s p lat_nan by blast
  have r6: "dispatch decimalBuiltins True (LngEdit ''north'' Rejected) placedProject = placedProject"
    using t [of "''north''"] s p lng_nan by blast
  from s p a b c d r1 r2 r3 r4 r5 r6 show ?thesis by simp
qed

end
